theory Spec2Isabelle
  imports Complex_Main
begin

section \<open>Dense matrices\<close>

text \<open>
  \<^verbatim>\<open>Eigen::MatrixXd\<close> is a dense array with a run-time number of rows and columns.
  A matrix is modelled by its two dimensions and its entry function; entries outside the
  dimensions are never read by a well-dimensioned program and carry no meaning.  A
  \<^verbatim>\<open>VectorXd\<close> is a matrix with one column.

  The scalar type \<^verbatim>\<open>double\<close> is the type parameter \<open>'a\<close>.  The definitions use its
  operations (\<open>0\<close>, \<open>1\<close>, \<open>+\<close>, \<open>-\<close>, \<open>*\<close>, \<open><\<close>) and assume no law about them, so
  that the same definitions are read over the real numbers, where arithmetic is exact, and
  over the type \<open>double\<close> below, which has the infinities and NaN of IEEE 754.  A property
  that holds by the control flow or by copying is proved for every \<open>'a\<close>; a property that
  needs the laws of arithmetic is proved over the reals and says so.
\<close>

record 'a mat =
  nrows :: nat
  ncols :: nat
  ent :: "nat \<Rightarrow> nat \<Rightarrow> 'a"

definition mat_eq :: "'a mat \<Rightarrow> 'a mat \<Rightarrow> bool" where
  "mat_eq A B \<longleftrightarrow>
     nrows A = nrows B \<and> ncols A = ncols B \<and>
     (\<forall>i\<in>{..<nrows A}. \<forall>j\<in>{..<ncols A}. ent A i j = ent B i j)"

definition symmetric :: "'a mat \<Rightarrow> bool" where
  "symmetric A \<longleftrightarrow>
     nrows A = ncols A \<and> (\<forall>i\<in>{..<nrows A}. \<forall>j\<in>{..<nrows A}. ent A i j = ent A j i)"

definition MatrixXd_Zero :: "nat \<Rightarrow> nat \<Rightarrow> 'a::zero mat" where
  "MatrixXd_Zero r c = \<lparr>nrows = r, ncols = c, ent = (\<lambda>i j. 0)\<rparr>"

definition MatrixXd_Identity :: "nat \<Rightarrow> nat \<Rightarrow> 'a::{zero,one} mat" where
  "MatrixXd_Identity r c = \<lparr>nrows = r, ncols = c, ent = (\<lambda>i j. if i = j then 1 else 0)\<rparr>"

definition transpose_mat :: "'a mat \<Rightarrow> 'a mat" where
  "transpose_mat A = \<lparr>nrows = ncols A, ncols = nrows A, ent = (\<lambda>i j. ent A j i)\<rparr>"

text \<open>
  The sum \<open>f 0 + f 1 + \<dots> + f (n - 1)\<close> that a product kernel of Eigen accumulates for
  one entry, here in index order and starting from zero; over an addition that is
  associative and commutative with unit zero it is the sum over \<open>{..<n}\<close>.
\<close>

primrec accumulate :: "(nat \<Rightarrow> 'a::{zero,plus}) \<Rightarrow> nat \<Rightarrow> 'a" where
  "accumulate f 0 = 0"
| "accumulate f (Suc n) = accumulate f n + f n"

definition mult :: "'a::{zero,plus,times} mat \<Rightarrow> 'a mat \<Rightarrow> 'a mat" where
  "mult A B =
     \<lparr>nrows = nrows A, ncols = ncols B,
      ent = (\<lambda>i j. accumulate (\<lambda>k. ent A i k * ent B k j) (ncols A))\<rparr>"

definition add_mat :: "'a::plus mat \<Rightarrow> 'a mat \<Rightarrow> 'a mat" where
  "add_mat A B = \<lparr>nrows = nrows A, ncols = ncols A, ent = (\<lambda>i j. ent A i j + ent B i j)\<rparr>"

definition neg_mat :: "'a::uminus mat \<Rightarrow> 'a mat" where
  "neg_mat A = \<lparr>nrows = nrows A, ncols = ncols A, ent = (\<lambda>i j. - ent A i j)\<rparr>"

text \<open>\<^verbatim>\<open>A.block(i, j, p, q)\<close> read as a value: the \<open>p \<times> q\<close> block starting at \<open>(i, j)\<close>.\<close>

definition block :: "'a mat \<Rightarrow> nat \<Rightarrow> nat \<Rightarrow> nat \<Rightarrow> nat \<Rightarrow> 'a mat" where
  "block A i j p q = \<lparr>nrows = p, ncols = q, ent = (\<lambda>a b. ent A (i + a) (j + b))\<rparr>"

text \<open>\<^verbatim>\<open>A.block(i, j, p, q) = B\<close>: the block is overwritten, the rest of \<open>A\<close> is kept.\<close>

definition block_assign :: "'a mat \<Rightarrow> nat \<Rightarrow> nat \<Rightarrow> nat \<Rightarrow> nat \<Rightarrow> 'a mat \<Rightarrow> 'a mat" where
  "block_assign A i j p q B =
     A\<lparr>ent := (\<lambda>a b. if i \<le> a \<and> a < i + p \<and> j \<le> b \<and> b < j + q
                      then ent B (a - i) (b - j) else ent A a b)\<rparr>"

text \<open>\<^verbatim>\<open>A.block(i, j, p, q) += B\<close>.\<close>

definition block_add :: "'a::plus mat \<Rightarrow> nat \<Rightarrow> nat \<Rightarrow> nat \<Rightarrow> nat \<Rightarrow> 'a mat \<Rightarrow> 'a mat" where
  "block_add A i j p q B =
     A\<lparr>ent := (\<lambda>a b. if i \<le> a \<and> a < i + p \<and> j \<le> b \<and> b < j + q
                      then ent A a b + ent B (a - i) (b - j) else ent A a b)\<rparr>"

text \<open>
  \<^verbatim>\<open>A.selfadjointView<Eigen::Upper>()\<close> evaluated to a dense matrix: the upper triangle
  of \<open>A\<close> reflected over the diagonal.  \<^verbatim>\<open>selfadjointView<Eigen::Lower>\<close> is what
  \<^verbatim>\<open>A.llt()\<close> reads.
\<close>

definition selfadjointView_Upper :: "'a mat \<Rightarrow> 'a mat" where
  "selfadjointView_Upper A = A\<lparr>ent := (\<lambda>i j. if i \<le> j then ent A i j else ent A j i)\<rparr>"

definition selfadjointView_Lower :: "'a mat \<Rightarrow> 'a mat" where
  "selfadjointView_Lower A = A\<lparr>ent := (\<lambda>i j. if j \<le> i then ent A i j else ent A j i)\<rparr>"

text \<open>
  \<^verbatim>\<open>A.triangularView<Eigen::Upper>() = B\<close>, \<^verbatim>\<open>+= B\<close> and \<^verbatim>\<open>-= B\<close>: only the entries on
  and above the diagonal of \<open>A\<close> are written.
\<close>

definition triangularView_Upper_assign :: "'a mat \<Rightarrow> 'a mat \<Rightarrow> 'a mat" where
  "triangularView_Upper_assign A B = A\<lparr>ent := (\<lambda>i j. if i \<le> j then ent B i j else ent A i j)\<rparr>"

definition triangularView_Upper_add :: "'a::plus mat \<Rightarrow> 'a mat \<Rightarrow> 'a mat" where
  "triangularView_Upper_add A B =
     A\<lparr>ent := (\<lambda>i j. if i \<le> j then ent A i j + ent B i j else ent A i j)\<rparr>"

definition triangularView_Upper_sub :: "'a::minus mat \<Rightarrow> 'a mat \<Rightarrow> 'a mat" where
  "triangularView_Upper_sub A B =
     A\<lparr>ent := (\<lambda>i j. if i \<le> j then ent A i j - ent B i j else ent A i j)\<rparr>"

text \<open>
  \<^verbatim>\<open>A.conservativeResizeLike(Eigen::MatrixXd::Zero(r, c))\<close>: the matrix becomes
  \<open>r \<times> c\<close>, the entries it already had are kept and the new ones are zero.
\<close>

definition conservativeResizeLike_Zero :: "'a::zero mat \<Rightarrow> nat \<Rightarrow> nat \<Rightarrow> 'a mat" where
  "conservativeResizeLike_Zero A r c =
     \<lparr>nrows = r, ncols = c, ent = (\<lambda>i j. if i < nrows A \<and> j < ncols A then ent A i j else 0)\<rparr>"

text \<open>
  The check closing \<^verbatim>\<open>EKFPropagation\<close> and \<^verbatim>\<open>EKFUpdate\<close>: the loop over
  \<^verbatim>\<open>_Cov.diagonal()\<close> that sets \<^verbatim>\<open>found_neg\<close>.  The comparison is that of the scalar
  type: over \<open>double\<close> it is false on NaN.
\<close>

definition found_neg :: "'a::{zero,ord} mat \<Rightarrow> bool" where
  "found_neg A = list_ex (\<lambda>i. ent A i i < 0) [0..<nrows A]"

section \<open>Variables and the state\<close>

text \<open>
  A \<^verbatim>\<open>std::shared_ptr<Type>\<close> is an address; the objects live in a store kept with the
  state, so that two containers holding the same pointer see the same object.

  Modelled from the spec: the class \<^verbatim>\<open>ov_type::Type\<close> and its subclasses are not part of
  the source file.  A variable has an id (the first row of its block in the covariance,
  \<open>-1\<close> when detached), a size, a value, a kind, and the addresses of its sub-variables;
  \<^verbatim>\<open>set_local_id\<close> stores the id, \<^verbatim>\<open>clone\<close> makes a detached object of the same kind,
  size and value, and \<^verbatim>\<open>check_if_subvariable\<close> returns the queried pointer when it is one
  of the sub-variables and the null pointer otherwise.
\<close>

type_synonym ref = nat

datatype type_kind = Vec | JPLQuat | PoseJPL | IMU | Landmark

record 'a var =
  type_id :: int
  type_size :: nat
  type_value :: "'a mat"
  type_kind :: type_kind
  subvariables :: "ref list"

record options =
  do_calib_camera_timeoffset :: bool
  do_calib_camera_intrinsics :: bool
  max_clone_size :: int
  max_aruco_features :: int

text \<open>
  The fields of \<^verbatim>\<open>State\<close> that \<^verbatim>\<open>StateHelper\<close> touches.  \<open>imu_pose\<close> is
  \<^verbatim>\<open>_imu->pose()\<close> and \<open>imu_v\<close> the velocity variable whose value \<^verbatim>\<open>_imu->vel()\<close>
  returns.  \<open>next_ref\<close> is the next free address of the store.  Time stamps are only
  used as keys of the clone map and are kept as real numbers.
\<close>

record 'a state =
  Cov :: "'a mat"
  variables :: "ref list"
  heap :: "ref \<Rightarrow> 'a var"
  next_ref :: ref
  clones_IMU :: "real \<rightharpoonup> ref"
  features_SLAM :: "nat \<rightharpoonup> ref"
  timestamp :: real
  imu_pose :: ref
  imu_v :: ref
  calib_dt_CAMtoIMU :: ref
  cam_intrinsics :: "(nat \<times> ref) list"
  cam_intrinsics_cameras :: "nat \<rightharpoonup> 'a mat"
  state_options :: options

datatype error = ContractViolation | NumericalViolation | Assertion | OutOfRange

text \<open>
  What the source calls in Eigen and Boost, taken as parameters:
  \<^item> \<open>llt_solve S B\<close> is \<^verbatim>\<open>S.llt().solve(B)\<close>, the Cholesky solve of \<open>S X = B\<close>; it
    returns a matrix whether or not the factorisation succeeded, and \<open>llt_info S\<close> is the
    status \<^verbatim>\<open>info()\<close> that Eigen records (true for \<^verbatim>\<open>Success\<close>).  No statement of
    the source reads the status, and no definition below reads \<open>llt_info\<close>: it serves to
    say of an input that its factorisation fails;
  \<^item> \<open>mat_inverse\<close> is \<^verbatim>\<open>MatrixXd::inverse()\<close>;
  \<^item> \<open>makeGivens p q\<close> is the pair \<open>(c, s)\<close> that \<^verbatim>\<open>JacobiRotation::makeGivens(p, q)\<close>
    stores;
  \<^item> \<open>chi_squared_quantile n\<close> is the 0.95 quantile of the chi-squared distribution with
    \<open>n\<close> degrees of freedom;
  \<^item> \<open>type_update k v dx\<close> is the value after \<^verbatim>\<open>Type::update(dx)\<close> of a variable of kind
    \<open>k\<close> and value \<open>v\<close>.
\<close>

record 'a extern =
  llt_solve :: "'a mat \<Rightarrow> 'a mat \<Rightarrow> 'a mat"
  llt_info :: "'a mat \<Rightarrow> bool"
  mat_inverse :: "'a mat \<Rightarrow> 'a mat"
  makeGivens :: "'a \<Rightarrow> 'a \<Rightarrow> 'a \<times> 'a"
  chi_squared_quantile :: "nat \<Rightarrow> 'a"
  type_update :: "type_kind \<Rightarrow> 'a mat \<Rightarrow> 'a mat \<Rightarrow> 'a mat"

text \<open>
  The id of a variable as an index.  Eigen's \<^verbatim>\<open>block\<close> asserts a start that is not
  negative, so this is the index the program uses for a variable whose id is not negative.
  The id \<open>-1\<close> of a detached variable is no index: a block access with it is out of
  range in the program.  \<open>attached\<close> below says when the block of a variable lies
  inside the covariance; \<^verbatim>\<open>EKFUpdate\<close> checks it before its first block access, and
  the properties of the other functions that depend on the position of a block assume it.
\<close>

definition id_of :: "'a state \<Rightarrow> ref \<Rightarrow> nat" where
  "id_of s v = nat (type_id (heap s v))"

definition size_of :: "'a state \<Rightarrow> ref \<Rightarrow> nat" where
  "size_of s v = type_size (heap s v)"

definition set_local_id :: "(ref \<Rightarrow> 'a var) \<Rightarrow> ref \<Rightarrow> int \<Rightarrow> (ref \<Rightarrow> 'a var)" where
  "set_local_id h v new_id = h(v := (h v)\<lparr>type_id := new_id\<rparr>)"

definition check_if_subvariable :: "'a var \<Rightarrow> ref \<Rightarrow> ref option" where
  "check_if_subvariable x check = (if check \<in> set (subvariables x) then Some check else None)"

definition type_clone :: "'a var \<Rightarrow> 'a var" where
  "type_clone x = x\<lparr>type_id := - 1, subvariables := []\<rparr>"

text \<open>
  The block of a variable lies inside the covariance: its id is not negative and its
  range ends within the rows and the columns.  This is what Eigen's assertion on
  \<^verbatim>\<open>_Cov.block(v->id(), \<dots>, v->size(), \<dots>)\<close> asks of \<open>v\<close>.
\<close>

definition attached :: "'a state \<Rightarrow> ref \<Rightarrow> bool" where
  "attached s v \<longleftrightarrow>
     0 \<le> type_id (heap s v) \<and> id_of s v + size_of s v \<le> nrows (Cov s) \<and>
     id_of s v + size_of s v \<le> ncols (Cov s)"

section \<open>Marginal and initial covariance\<close>

text \<open>
  \<^verbatim>\<open>get_marginal_covariance\<close>: the two nested loops over \<^verbatim>\<open>small_variables\<close>, with the
  running offsets \<^verbatim>\<open>i_index\<close> and \<^verbatim>\<open>k_index\<close>.  The function reads the state and returns
  a matrix; it has no write to the state, so the model returns no state.
\<close>

fun cov_size :: "'a state \<Rightarrow> ref list \<Rightarrow> nat" where
  "cov_size s [] = 0"
| "cov_size s (v # vs) = size_of s v + cov_size s vs"

fun marginal_inner :: "'a state \<Rightarrow> ref \<Rightarrow> nat \<Rightarrow> ref list \<Rightarrow> nat \<Rightarrow> 'a mat \<Rightarrow> 'a mat" where
  "marginal_inner s vi i_index [] k_index Small_cov = Small_cov"
| "marginal_inner s vi i_index (vk # ks) k_index Small_cov =
     marginal_inner s vi i_index ks (k_index + size_of s vk)
       (block_assign Small_cov i_index k_index (size_of s vi) (size_of s vk)
          (block (Cov s) (id_of s vi) (id_of s vk) (size_of s vi) (size_of s vk)))"

fun marginal_outer :: "'a state \<Rightarrow> ref list \<Rightarrow> ref list \<Rightarrow> nat \<Rightarrow> 'a mat \<Rightarrow> 'a mat" where
  "marginal_outer s small_variables [] i_index Small_cov = Small_cov"
| "marginal_outer s small_variables (vi # is) i_index Small_cov =
     marginal_outer s small_variables is (i_index + size_of s vi)
       (marginal_inner s vi i_index small_variables 0 Small_cov)"

definition get_marginal_covariance :: "'a::zero state \<Rightarrow> ref list \<Rightarrow> 'a mat" where
  "get_marginal_covariance s small_variables =
     marginal_outer s small_variables small_variables 0
       (MatrixXd_Zero (cov_size s small_variables) (cov_size s small_variables))"

text \<open>
  \<^verbatim>\<open>set_initial_covariance\<close>: the same two loops, writing into \<^verbatim>\<open>_Cov\<close>, and the final
  reflection of the upper triangle.
\<close>

fun initial_inner :: "'a state \<Rightarrow> 'a mat \<Rightarrow> ref \<Rightarrow> nat \<Rightarrow> ref list \<Rightarrow> nat \<Rightarrow> 'a mat \<Rightarrow> 'a mat" where
  "initial_inner s covariance vi i_index [] k_index C = C"
| "initial_inner s covariance vi i_index (vk # ks) k_index C =
     initial_inner s covariance vi i_index ks (k_index + size_of s vk)
       (block_assign C (id_of s vi) (id_of s vk) (size_of s vi) (size_of s vk)
          (block covariance i_index k_index (size_of s vi) (size_of s vk)))"

fun initial_outer :: "'a state \<Rightarrow> 'a mat \<Rightarrow> ref list \<Rightarrow> ref list \<Rightarrow> nat \<Rightarrow> 'a mat \<Rightarrow> 'a mat" where
  "initial_outer s covariance order [] i_index C = C"
| "initial_outer s covariance order (vi # is) i_index C =
     initial_outer s covariance order is (i_index + size_of s vi)
       (initial_inner s covariance vi i_index order 0 C)"

definition set_initial_covariance :: "'a state \<Rightarrow> 'a mat \<Rightarrow> ref list \<Rightarrow> 'a state" where
  "set_initial_covariance s covariance order =
     s\<lparr>Cov := selfadjointView_Upper (initial_outer s covariance order order 0 (Cov s))\<rparr>"

section \<open>Propagation\<close>

text \<open>
  The \<^verbatim>\<open>assert\<close> statements and the \<^verbatim>\<open>std::exit\<close> calls of the source are
  modelled as the values \<open>Inl Assertion\<close>, \<open>Inl ContractViolation\<close> and
  \<open>Inl NumericalViolation\<close>.  Eigen's own assertions (a block lies inside its matrix,
  the inner dimensions of a product agree, the two sides of an assignment to a view have
  the same shape) are modelled in \<^verbatim>\<open>EKFUpdate\<close>, as \<open>Inl Assertion\<close> too; for the
  other functions the properties assume them, through \<open>attached\<close> and the dimensions
  of the arguments.
\<close>

text \<open>The loop that fills \<^verbatim>\<open>Phi_id\<close> (and \<^verbatim>\<open>H_id\<close>): the running offset \<^verbatim>\<open>current_it\<close>.\<close>

fun positions :: "'a state \<Rightarrow> ref list \<Rightarrow> nat \<Rightarrow> nat list" where
  "positions s [] current_it = []"
| "positions s (v # vs) current_it = current_it # positions s vs (current_it + size_of s v)"

text \<open>The contiguity loop over \<^verbatim>\<open>order_NEW\<close>: false when the source exits.\<close>

fun contiguous :: "'a state \<Rightarrow> ref list \<Rightarrow> bool" where
  "contiguous s [] = True"
| "contiguous s [v] = True"
| "contiguous s (v # w # vs) =
     (type_id (heap s v) + int (type_size (heap s v)) = type_id (heap s w) \<and>
      contiguous s (w # vs))"

fun Cov_PhiT_loop :: "'a::{zero,plus,times} state \<Rightarrow> 'a mat \<Rightarrow> (ref \<times> nat) list \<Rightarrow> 'a mat \<Rightarrow> 'a mat" where
  "Cov_PhiT_loop s Phi [] Cov_PhiT = Cov_PhiT"
| "Cov_PhiT_loop s Phi ((var, Phi_id) # rest) Cov_PhiT =
     Cov_PhiT_loop s Phi rest
       (add_mat Cov_PhiT
          (mult (block (Cov s) 0 (id_of s var) (nrows (Cov s)) (size_of s var))
                (transpose_mat (block Phi 0 Phi_id (nrows Phi) (size_of s var)))))"

fun Phi_Cov_PhiT_loop :: "'a::{zero,plus,times} state \<Rightarrow> 'a mat \<Rightarrow> 'a mat \<Rightarrow> (ref \<times> nat) list \<Rightarrow> 'a mat \<Rightarrow> 'a mat" where
  "Phi_Cov_PhiT_loop s Phi Cov_PhiT [] Phi_Cov_PhiT = Phi_Cov_PhiT"
| "Phi_Cov_PhiT_loop s Phi Cov_PhiT ((var, Phi_id) # rest) Phi_Cov_PhiT =
     Phi_Cov_PhiT_loop s Phi Cov_PhiT rest
       (add_mat Phi_Cov_PhiT
          (mult (block Phi 0 Phi_id (nrows Phi) (size_of s var))
                (block Cov_PhiT (id_of s var) 0 (size_of s var) (nrows Phi))))"

text \<open>The covariance after the three block writes that close \<^verbatim>\<open>EKFPropagation\<close>.\<close>

definition propagated_covariance :: "'a::{zero,plus,times} state \<Rightarrow> ref list \<Rightarrow> ref list \<Rightarrow> 'a mat \<Rightarrow> 'a mat \<Rightarrow> 'a mat" where
  "propagated_covariance s order_NEW order_OLD Phi Q =
     (let Phi_id = positions s order_OLD 0;
          Cov_PhiT = Cov_PhiT_loop s Phi (zip order_OLD Phi_id)
                       (MatrixXd_Zero (nrows (Cov s)) (nrows Phi));
          Phi_Cov_PhiT = Phi_Cov_PhiT_loop s Phi Cov_PhiT (zip order_OLD Phi_id)
                           (selfadjointView_Upper Q);
          start_id = id_of s (hd order_NEW);
          phi_size = nrows Phi;
          total_size = nrows (Cov s);
          C1 = block_assign (Cov s) start_id 0 phi_size total_size (transpose_mat Cov_PhiT);
          C2 = block_assign C1 0 start_id total_size phi_size Cov_PhiT
      in block_assign C2 start_id start_id phi_size phi_size Phi_Cov_PhiT)"

definition EKFPropagation ::
  "'a::{zero,plus,times,ord} state \<Rightarrow> ref list \<Rightarrow> ref list \<Rightarrow> 'a mat \<Rightarrow> 'a mat \<Rightarrow> error + 'a state" where
  "EKFPropagation s order_NEW order_OLD Phi Q =
     (if order_NEW = [] \<or> order_OLD = [] then Inl ContractViolation
      else if \<not> contiguous s order_NEW then Inl ContractViolation
      else if cov_size s order_NEW \<noteq> nrows Phi \<or> cov_size s order_OLD \<noteq> ncols Phi \<or>
              cov_size s order_NEW \<noteq> ncols Q \<or> cov_size s order_NEW \<noteq> nrows Q
        then Inl Assertion
      else
        let C = propagated_covariance s order_NEW order_OLD Phi Q
        in if found_neg C then Inl NumericalViolation else Inr (s\<lparr>Cov := C\<rparr>))"

section \<open>Update\<close>

text \<open>
  The loops that build \<^verbatim>\<open>M_a\<close>, row block by row block, in \<^verbatim>\<open>EKFUpdate\<close> and again in
  \<^verbatim>\<open>initialize_invertible\<close>.
\<close>

fun M_i_loop :: "'a::{zero,plus,times} state \<Rightarrow> 'a mat \<Rightarrow> ref \<Rightarrow> (ref \<times> nat) list \<Rightarrow> 'a mat \<Rightarrow> 'a mat" where
  "M_i_loop s H var [] M_i = M_i"
| "M_i_loop s H var ((meas_var, H_id) # rest) M_i =
     M_i_loop s H var rest
       (add_mat M_i
          (mult (block (Cov s) (id_of s var) (id_of s meas_var) (size_of s var) (size_of s meas_var))
                (transpose_mat (block H 0 H_id (nrows H) (size_of s meas_var)))))"

fun M_a_loop :: "'a::{zero,plus,times} state \<Rightarrow> 'a mat \<Rightarrow> (ref \<times> nat) list \<Rightarrow> nat \<Rightarrow> ref list \<Rightarrow> 'a mat \<Rightarrow> 'a mat" where
  "M_a_loop s H H_pos res_rows [] M_a = M_a"
| "M_a_loop s H H_pos res_rows (var # vs) M_a =
     M_a_loop s H H_pos res_rows vs
       (block_assign M_a (id_of s var) 0 (size_of s var) res_rows
          (M_i_loop s H var H_pos (MatrixXd_Zero (size_of s var) res_rows)))"

definition compute_M_a :: "'a::{zero,plus,times} state \<Rightarrow> ref list \<Rightarrow> 'a mat \<Rightarrow> nat \<Rightarrow> 'a mat" where
  "compute_M_a s H_order H res_rows =
     M_a_loop s H (zip H_order (positions s H_order 0)) res_rows (variables s)
       (MatrixXd_Zero (nrows (Cov s)) res_rows)"

text \<open>
  \<^verbatim>\<open>S\<close> is declared without initialisation and only its upper triangle is written and
  read; the model starts it from zero.
\<close>

definition residual_covariance :: "'a::{zero,plus,times} state \<Rightarrow> ref list \<Rightarrow> 'a mat \<Rightarrow> 'a mat \<Rightarrow> 'a mat" where
  "residual_covariance s H_order H R =
     (let P_small = get_marginal_covariance s H_order;
          S0 = triangularView_Upper_assign (MatrixXd_Zero (nrows R) (nrows R))
                 (mult (mult H P_small) (transpose_mat H))
      in triangularView_Upper_add S0 R)"

definition kalman_gain :: "'a::{zero,one,plus,times} extern \<Rightarrow> 'a state \<Rightarrow> ref list \<Rightarrow> 'a mat \<Rightarrow> 'a mat \<Rightarrow> 'a mat \<Rightarrow> 'a mat" where
  "kalman_gain ext s H_order H res R =
     (let M_a = compute_M_a s H_order H (nrows res);
          S = residual_covariance s H_order H R;
          Sinv = llt_solve ext (selfadjointView_Upper S) (MatrixXd_Identity (nrows R) (nrows R))
      in mult M_a (selfadjointView_Upper Sinv))"

definition updated_covariance :: "'a::{zero,one,plus,minus,times} extern \<Rightarrow> 'a state \<Rightarrow> ref list \<Rightarrow> 'a mat \<Rightarrow> 'a mat \<Rightarrow> 'a mat \<Rightarrow> 'a mat" where
  "updated_covariance ext s H_order H res R =
     (let M_a = compute_M_a s H_order H (nrows res);
          K = kalman_gain ext s H_order H res R
      in selfadjointView_Upper (triangularView_Upper_sub (Cov s) (mult K (transpose_mat M_a))))"

fun update_variables :: "'a extern \<Rightarrow> 'a mat \<Rightarrow> ref list \<Rightarrow> (ref \<Rightarrow> 'a var) \<Rightarrow> (ref \<Rightarrow> 'a var)" where
  "update_variables ext dx [] h = h"
| "update_variables ext dx (v # vs) h =
     update_variables ext dx vs
       (h(v := (h v)\<lparr>type_value :=
            type_update ext (type_kind (h v)) (type_value (h v))
              (block dx (nat (type_id (h v))) 0 (type_size (h v)) 1)\<rparr>))"

text \<open>
  The loop over \<^verbatim>\<open>_cam_intrinsics\<close>; \<^verbatim>\<open>_cam_intrinsics_cameras.at\<close> throws when the
  camera is missing.
\<close>

fun update_cameras ::
  "(ref \<Rightarrow> 'a var) \<Rightarrow> (nat \<times> ref) list \<Rightarrow> (nat \<rightharpoonup> 'a mat) \<Rightarrow> error + (nat \<rightharpoonup> 'a mat)" where
  "update_cameras h [] cams = Inr cams"
| "update_cameras h ((cam_id, calib) # rest) cams =
     (case cams cam_id of
        None \<Rightarrow> Inl OutOfRange
      | Some c \<Rightarrow> update_cameras h rest (cams(cam_id \<mapsto> type_value (h calib))))"

text \<open>
  Eigen's assertions in \<^verbatim>\<open>EKFUpdate\<close>, in the order in which the statements meet
  them: \<^verbatim>\<open>M_a.block(var->id(), \<dots>)\<close> and \<^verbatim>\<open>dx.block(var->id(), \<dots>)\<close> for every
  variable of the state, and \<^verbatim>\<open>_Cov.block\<close> in \<^verbatim>\<open>get_marginal_covariance\<close> for every
  variable of \<^verbatim>\<open>H_order\<close>, need the block of the variable inside the covariance; the
  product \<^verbatim>\<open>H * P_small\<close> (and \<^verbatim>\<open>H.block(0, H_id[i], \<dots>)\<close>) needs one column of
  \<open>H\<close> per row of the listed variables; \<^verbatim>\<open>S.triangularView() += R\<close> needs \<open>R\<close> of
  the shape of \<open>S\<close>, which is square; and \<^verbatim>\<open>_Cov.triangularView() -= K * M_a'\<close> needs
  the covariance square.
\<close>

definition update_in_range :: "'a state \<Rightarrow> ref list \<Rightarrow> 'a mat \<Rightarrow> 'a mat \<Rightarrow> bool" where
  "update_in_range s H_order H R \<longleftrightarrow>
     list_all (attached s) (variables s) \<and> list_all (attached s) H_order \<and>
     ncols H = cov_size s H_order \<and> ncols R = nrows R \<and> ncols (Cov s) = nrows (Cov s)"

definition EKFUpdate ::
  "'a::{zero,one,plus,minus,times,ord} extern \<Rightarrow> 'a state \<Rightarrow> ref list \<Rightarrow> 'a mat \<Rightarrow> 'a mat \<Rightarrow> 'a mat \<Rightarrow> error + 'a state" where
  "EKFUpdate ext s H_order H res R =
     (if nrows res \<noteq> nrows R \<or> nrows H \<noteq> nrows res then Inl Assertion
      else if \<not> update_in_range s H_order H R then Inl Assertion
      else
        let K = kalman_gain ext s H_order H res R;
            C = updated_covariance ext s H_order H res R
        in if found_neg C then Inl NumericalViolation
           else
             let dx = mult K res;
                 h = update_variables ext dx (variables s) (heap s);
                 s1 = s\<lparr>Cov := C, heap := h\<rparr>
             in if do_calib_camera_intrinsics (state_options s)
                then (case update_cameras h (cam_intrinsics s) (cam_intrinsics_cameras s) of
                        Inl e \<Rightarrow> Inl e
                      | Inr cams \<Rightarrow> Inr (s1\<lparr>cam_intrinsics_cameras := cams\<rparr>))
                else Inr s1)"

section \<open>Marginalisation\<close>

text \<open>
  The loop that keeps the remaining variables and moves forward those beyond the
  marginalised one; the ids are written through the shared pointers.
\<close>

fun remaining_loop ::
  "ref \<Rightarrow> int \<Rightarrow> int \<Rightarrow> ref list \<Rightarrow> (ref \<Rightarrow> 'a var) \<Rightarrow> ref list \<Rightarrow> (ref \<Rightarrow> 'a var) \<times> ref list" where
  "remaining_loop marg marg_id marg_size [] h remaining_variables = (h, remaining_variables)"
| "remaining_loop marg marg_id marg_size (v # vs) h remaining_variables =
     (if v \<noteq> marg
      then remaining_loop marg marg_id marg_size vs
             (if type_id (h v) > marg_id then set_local_id h v (type_id (h v) - marg_size) else h)
             (remaining_variables @ [v])
      else remaining_loop marg marg_id marg_size vs h remaining_variables)"

definition marginalize :: "'a::zero state \<Rightarrow> ref \<Rightarrow> error + 'a state" where
  "marginalize s marg =
     (if marg \<notin> set (variables s) then Inl ContractViolation
      else
        let marg_size = type_size (heap s marg);
            marg_id = type_id (heap s marg);
            x2_size = nat (int (nrows (Cov s)) - marg_id - int marg_size);
            a = nat marg_id;
            Cov_new0 = MatrixXd_Zero (nrows (Cov s) - marg_size) (nrows (Cov s) - marg_size);
            Cov_new1 = block_assign Cov_new0 0 0 a a (block (Cov s) 0 0 a a);
            Cov_new2 = block_assign Cov_new1 0 a a x2_size
                         (block (Cov s) 0 (a + marg_size) a x2_size);
            Cov_new3 = block_assign Cov_new2 a 0 x2_size a
                         (transpose_mat (block Cov_new2 0 a a x2_size));
            Cov_new = block_assign Cov_new3 a a x2_size x2_size
                         (block (Cov s) (a + marg_size) (a + marg_size) x2_size x2_size);
            (h, remaining_variables) =
               remaining_loop marg marg_id (int marg_size) (variables s) (heap s) []
        in Inr (s\<lparr>Cov := Cov_new, heap := set_local_id h marg (- 1),
                  variables := remaining_variables\<rparr>))"

section \<open>Cloning\<close>

text \<open>
  The search loop of \<^verbatim>\<open>clone\<close>: the first top-level variable that is the variable to
  clone or has it as a sub-variable; the result is \<^verbatim>\<open>type_check\<close>.
\<close>

fun find_type_check :: "'a state \<Rightarrow> ref list \<Rightarrow> ref \<Rightarrow> ref option" where
  "find_type_check s [] variable_to_clone = None"
| "find_type_check s (x # xs) variable_to_clone =
     (if x = variable_to_clone then Some x
      else if check_if_subvariable (heap s x) variable_to_clone \<noteq> Some variable_to_clone
        then find_type_check s xs variable_to_clone
      else check_if_subvariable (heap s x) variable_to_clone)"

text \<open>
  The covariance after the resize and the three block copies of \<^verbatim>\<open>clone\<close>, for the
  variable at \<open>old_loc\<close> of size \<open>total_size\<close>.
\<close>

definition cloned_covariance :: "'a::zero mat \<Rightarrow> nat \<Rightarrow> nat \<Rightarrow> 'a mat" where
  "cloned_covariance C old_loc total_size =
     (let old_size = nrows C;
          new_loc = nrows C;
          C0 = conservativeResizeLike_Zero C (old_size + total_size) (old_size + total_size);
          C1 = block_assign C0 new_loc new_loc total_size total_size
                 (block C0 old_loc old_loc total_size total_size);
          C2 = block_assign C1 0 new_loc old_size total_size
                 (block C1 0 old_loc old_size total_size)
      in block_assign C2 new_loc 0 total_size old_size
           (block C2 old_loc 0 total_size old_size))"

definition clone :: "'a::zero state \<Rightarrow> ref \<Rightarrow> error + ('a state \<times> ref)" where
  "clone s variable_to_clone =
     (let total_size = size_of s variable_to_clone;
          new_loc = nrows (Cov s)
      in case find_type_check s (variables s) variable_to_clone of
           None \<Rightarrow> Inl ContractViolation
         | Some type_check \<Rightarrow>
             let old_loc = id_of s type_check;
                 new_clone = next_ref s;
                 h = set_local_id ((heap s)(new_clone := type_clone (heap s type_check)))
                       new_clone (int new_loc)
             in Inr (s\<lparr>Cov := cloned_covariance (Cov s) old_loc total_size, heap := h,
                       next_ref := Suc new_clone,
                       variables := variables s @ [new_clone]\<rparr>, new_clone))"

text \<open>
  The two \<^verbatim>\<open>+=\<close> statements of \<^verbatim>\<open>augment_clone\<close> under
  \<^verbatim>\<open>do_calib_camera_timeoffset\<close>, in the order of the source: the column stripe of the
  pose first, then its row stripe, which reads the covariance the first statement left.
\<close>

definition timeoffset_covariance :: "'a::{zero,plus,times} mat \<Rightarrow> nat \<Rightarrow> nat \<Rightarrow> 'a mat \<Rightarrow> 'a mat" where
  "timeoffset_covariance C pose_id dt_id dnc_dt =
     (let C1 = block_add C 0 pose_id (nrows C) 6
                 (mult (block C 0 dt_id (nrows C) 1) (transpose_mat dnc_dt))
      in block_add C1 pose_id 0 6 (nrows C1)
           (mult dnc_dt (block C1 dt_id 0 1 (nrows C1))))"


section \<open>Initialisation of a new variable\<close>

text \<open>
  The double loop over \<^verbatim>\<open>R\<close> that exits when the noise is not isotropic or not diagonal:
  true when some entry makes the source exit.
\<close>

definition noise_violation :: "'a::zero mat \<Rightarrow> bool" where
  "noise_violation R =
     list_ex (\<lambda>(r, c). (r = c \<and> ent R 0 0 \<noteq> ent R r c) \<or> (r \<noteq> c \<and> ent R r c \<noteq> 0))
       (List.product [0..<nrows R] [0..<ncols R])"

text \<open>
  The covariance after \<^verbatim>\<open>initialize_invertible\<close> has grown it by \<open>n\<close> and written the
  cross block \<open>cross\<close>, its transpose and the new diagonal block \<open>P_LL\<close>.
\<close>

definition augmented_covariance :: "'a::zero mat \<Rightarrow> nat \<Rightarrow> 'a mat \<Rightarrow> 'a mat \<Rightarrow> 'a mat" where
  "augmented_covariance C n cross P_LL =
     (let oldSize = nrows C;
          C0 = conservativeResizeLike_Zero C (oldSize + n) (oldSize + n);
          C1 = block_assign C0 0 oldSize oldSize n cross;
          C2 = block_assign C1 oldSize 0 n oldSize (transpose_mat (block C1 0 oldSize oldSize n))
      in block_assign C2 oldSize oldSize n n P_LL)"

definition initialize_invertible ::
  "'a::{zero,plus,uminus,times} extern \<Rightarrow> 'a state \<Rightarrow> ref \<Rightarrow> ref list \<Rightarrow> 'a mat \<Rightarrow> 'a mat \<Rightarrow> 'a mat \<Rightarrow> 'a mat \<Rightarrow> error + 'a state" where
  "initialize_invertible ext s new_variable H_order H_R H_L R res =
     (if new_variable \<in> set (variables s) then Inl ContractViolation
      else if nrows R \<noteq> ncols R \<or> \<not> nrows R > 0 then Inl Assertion
      else if noise_violation R then Inl ContractViolation
      else if nrows res \<noteq> nrows R \<or> nrows H_L \<noteq> nrows res \<or> nrows H_L \<noteq> nrows H_R
        then Inl Assertion
      else if nrows H_L \<noteq> ncols H_L \<or> nrows H_L \<noteq> size_of s new_variable then Inl Assertion
      else
        let M_a = compute_M_a s H_order H_R (nrows res);
            M = residual_covariance s H_order H_R R;
            H_Linv = mat_inverse ext H_L;
            P_LL = mult (mult H_Linv (selfadjointView_Upper M)) (transpose_mat H_Linv);
            oldSize = nrows (Cov s);
            C = augmented_covariance (Cov s) (size_of s new_variable)
                  (mult (neg_mat M_a) (transpose_mat H_Linv)) P_LL;
            x = heap s new_variable;
            x1 = x\<lparr>type_value := type_update ext (type_kind x) (type_value x) (mult H_Linv res)\<rparr>;
            h = set_local_id ((heap s)(new_variable := x1)) new_variable (int oldSize)
        in Inr (s\<lparr>Cov := C, heap := h, variables := variables s @ [new_variable]\<rparr>))"

text \<open>
  \<^verbatim>\<open>applyOnTheLeft(0, 1, G.adjoint())\<close> on the two-row block starting at row \<open>m1\<close> and
  covering the columns \<open>[j0, j0 + w)\<close>, for the rotation \<open>G = (c, s)\<close>: Eigen replaces the
  rows \<open>x, y\<close> by \<open>c x - s y\<close> and \<open>s x + c y\<close>.
\<close>

definition applyOnTheLeft_adjoint :: "'a::{plus,minus,times} \<times> 'a \<Rightarrow> 'a mat \<Rightarrow> nat \<Rightarrow> nat \<Rightarrow> nat \<Rightarrow> 'a mat" where
  "applyOnTheLeft_adjoint G A m1 j0 w =
     (let c = fst G; s = snd G
      in A\<lparr>ent := (\<lambda>i j.
            if j0 \<le> j \<and> j < j0 + w \<and> i = m1 then c * ent A m1 j - s * ent A (Suc m1) j
            else if j0 \<le> j \<and> j < j0 + w \<and> i = Suc m1 then s * ent A m1 j + c * ent A (Suc m1) j
            else ent A i j)\<rparr>)"

text \<open>One pass of the inner Givens loop: the rotation that zeroes \<^verbatim>\<open>H_L(m, n)\<close>.\<close>

definition givens_step :: "'a::{plus,minus,times} extern \<Rightarrow> nat \<Rightarrow> nat \<Rightarrow> 'a mat \<times> 'a mat \<times> 'a mat \<Rightarrow> 'a mat \<times> 'a mat \<times> 'a mat" where
  "givens_step ext n m t =
     (case t of (H_L, H_R, res) \<Rightarrow>
        let tempHo_GR = makeGivens ext (ent H_L (m - 1) n) (ent H_L m n)
        in (applyOnTheLeft_adjoint tempHo_GR H_L (m - 1) n (ncols H_L - n),
            applyOnTheLeft_adjoint tempHo_GR H_R (m - 1) 0 (ncols H_R),
            applyOnTheLeft_adjoint tempHo_GR res (m - 1) 0 1))"

text \<open>
  The two nested loops: \<open>n\<close> ascending over the columns of \<^verbatim>\<open>H_L\<close>, \<open>m\<close> descending
  from the last row to \<open>n + 1\<close>.  The result is what the caller's \<^verbatim>\<open>H_L\<close>, \<^verbatim>\<open>H_R\<close> and
  \<^verbatim>\<open>res\<close> hold afterwards: the three are passed by non-const reference.
\<close>

definition givens_qr :: "'a::{plus,minus,times} extern \<Rightarrow> 'a mat \<Rightarrow> 'a mat \<Rightarrow> 'a mat \<Rightarrow> 'a mat \<times> 'a mat \<times> 'a mat" where
  "givens_qr ext H_L H_R res =
     fold (\<lambda>n. fold (givens_step ext n) (rev [Suc n..<nrows H_L])) [0..<ncols H_L]
       (H_L, H_R, res)"

definition dot :: "'a::{zero,plus,times} mat \<Rightarrow> 'a mat \<Rightarrow> 'a" where
  "dot x y = accumulate (\<lambda>i. ent x i 0 * ent y i 0) (nrows x)"

text \<open>The statistic \<^verbatim>\<open>chi2\<close> of the Mahalanobis gate, from the rotated system.\<close>

definition initialize_chi2 ::
  "'a::{zero,plus,minus,times} extern \<Rightarrow> 'a state \<Rightarrow> ref \<Rightarrow> ref list \<Rightarrow> 'a mat \<Rightarrow> 'a mat \<Rightarrow> 'a mat \<Rightarrow> 'a mat \<Rightarrow> 'a" where
  "initialize_chi2 ext s new_variable H_order H_R H_L R res =
     (case givens_qr ext H_L H_R res of (H_L1, H_R1, res1) \<Rightarrow>
        let new_var_size = size_of s new_variable;
            Hup = block H_R1 new_var_size 0 (nrows H_R1 - new_var_size) (ncols H_R1);
            resup = block res1 new_var_size 0 (nrows res1 - new_var_size) 1;
            Rup = block R new_var_size new_var_size (nrows R - new_var_size)
                    (nrows R - new_var_size);
            P_up = get_marginal_covariance s H_order;
            S = add_mat (mult (mult Hup P_up) (transpose_mat Hup)) Rup
        in dot resup (llt_solve ext (selfadjointView_Lower S) resup))"

text \<open>
  \<^verbatim>\<open>initialize\<close> returns its boolean, the state, and the contents of the three arguments
  it rotates in place, in the order \<open>H_R\<close>, \<open>H_L\<close>, \<open>res\<close>.
\<close>

definition initialize ::
  "'a::{zero,one,plus,minus,uminus,times,ord} extern \<Rightarrow> 'a state \<Rightarrow> ref \<Rightarrow> ref list \<Rightarrow> 'a mat \<Rightarrow> 'a mat \<Rightarrow> 'a mat \<Rightarrow> 'a mat \<Rightarrow> 'a \<Rightarrow>
     error + (bool \<times> 'a state \<times> 'a mat \<times> 'a mat \<times> 'a mat)" where
  "initialize ext s new_variable H_order H_R H_L R res chi_2_mult =
     (if new_variable \<in> set (variables s) then Inl ContractViolation
      else if nrows R \<noteq> ncols R \<or> \<not> nrows R > 0 then Inl Assertion
      else if noise_violation R then Inl ContractViolation
      else if size_of s new_variable \<noteq> ncols H_L then Inl Assertion
      else case givens_qr ext H_L H_R res of (H_L1, H_R1, res1) \<Rightarrow>
        let new_var_size = size_of s new_variable;
            Hxinit = block H_R1 0 0 new_var_size (ncols H_R1);
            H_finit = block H_L1 0 0 new_var_size new_var_size;
            resinit = block res1 0 0 new_var_size 1;
            Rinit = block R 0 0 new_var_size new_var_size;
            Hup = block H_R1 new_var_size 0 (nrows H_R1 - new_var_size) (ncols H_R1);
            resup = block res1 new_var_size 0 (nrows res1 - new_var_size) 1;
            Rup = block R new_var_size new_var_size (nrows R - new_var_size)
                    (nrows R - new_var_size);
            P_up = get_marginal_covariance s H_order
        in if nrows Rup \<noteq> nrows Hup \<or> ncols Hup \<noteq> ncols P_up then Inl Assertion
           else
             let chi2 = initialize_chi2 ext s new_variable H_order H_R H_L R res;
                 chi2_check = chi_squared_quantile ext (nrows res1)
             in if chi2 > chi_2_mult * chi2_check then Inr (False, s, H_R1, H_L1, res1)
                else case initialize_invertible ext s new_variable H_order
                            Hxinit H_finit Rinit resinit of
                  Inl e \<Rightarrow> Inl e
                | Inr s1 \<Rightarrow>
                    if nrows Hup > 0
                    then (case EKFUpdate ext s1 H_order Hup resup Rup of
                            Inl e \<Rightarrow> Inl e
                          | Inr s2 \<Rightarrow> Inr (True, s2, H_R1, H_L1, res1))
                    else Inr (True, s1, H_R1, H_L1, res1))"

section \<open>Notions used to state the properties\<close>

text \<open>
  The matrix of the words of the specification of \<^verbatim>\<open>marginalize\<close>: \<open>A\<close> with the rows
  and the columns \<open>[a, a + k)\<close> deleted.
\<close>

definition delete_rows_cols :: "'a mat \<Rightarrow> nat \<Rightarrow> nat \<Rightarrow> 'a mat" where
  "delete_rows_cols A a k =
     \<lparr>nrows = nrows A - k, ncols = ncols A - k,
      ent = (\<lambda>i j. ent A (if i < a then i else i + k) (if j < a then j else j + k))\<rparr>"

text \<open>
  The index in the covariance of the \<open>r\<close>-th row of the compact matrix that belongs to a
  list of variables: the ranges of the variables, one after the other in list order.
\<close>

fun src_idx :: "'a state \<Rightarrow> ref list \<Rightarrow> nat \<Rightarrow> nat" where
  "src_idx s [] r = 0"
| "src_idx s (v # vs) r = (if r < size_of s v then id_of s v + r else src_idx s vs (r - size_of s v))"

text \<open>The ranges of the listed variables do not overlap pairwise.\<close>

fun disjoint_ranges :: "'a state \<Rightarrow> ref list \<Rightarrow> bool" where
  "disjoint_ranges s [] = True"
| "disjoint_ranges s (v # vs) =
     ((\<forall>w\<in>set vs. id_of s v + size_of s v \<le> id_of s w \<or> id_of s w + size_of s w \<le> id_of s v) \<and>
      disjoint_ranges s vs)"






text \<open>
  The trace, accumulated like a product entry; quadratic form and positive
  semidefiniteness of a square real matrix.
\<close>

definition trace :: "'a::{zero,plus} mat \<Rightarrow> 'a" where
  "trace A = accumulate (\<lambda>i. ent A i i) (nrows A)"

definition quadratic_form :: "real mat \<Rightarrow> (nat \<Rightarrow> real) \<Rightarrow> real" where
  "quadratic_form A v = (\<Sum>i<nrows A. \<Sum>j<nrows A. v i * ent A i j * v j)"

definition positive_semidefinite :: "real mat \<Rightarrow> bool" where
  "positive_semidefinite A \<longleftrightarrow> symmetric A \<and> (\<forall>v. 0 \<le> quadratic_form A v)"

text \<open>
  The Cholesky solve with the identity as right-hand side is exact on \<open>S\<close>: the returned
  matrix is square of the side of \<open>S\<close> and is a right inverse of \<open>S\<close>.
\<close>

definition cholesky_exact :: "'a::{zero,one,plus,times} extern \<Rightarrow> 'a mat \<Rightarrow> bool" where
  "cholesky_exact ext S \<longleftrightarrow>
     (let X = llt_solve ext S (MatrixXd_Identity (nrows S) (nrows S))
      in nrows X = nrows S \<and> ncols X = nrows S \<and>
         mat_eq (mult S X) (MatrixXd_Identity (nrows S) (nrows S)))"

section \<open>Instances for concrete runs\<close>

text \<open>
  An instance of the external functions over the reals, for systems whose residual
  covariance is \<open>1 \<times> 1\<close>.  On a \<open>1 \<times> 1\<close> matrix \<open>[x]\<close> Eigen's Cholesky routine stores
  \<open>sqrt x\<close> when \<open>x > 0\<close>; otherwise it reports a numerical issue and leaves \<open>x\<close> in
  place, and the solve divides by the stored entry twice in both cases.
  \<open>makeGivens_real\<close> is the real case of Eigen's \<^verbatim>\<open>makeGivens\<close>.
\<close>

definition llt_solve_1x1 :: "real mat \<Rightarrow> real mat \<Rightarrow> real mat" where
  "llt_solve_1x1 S B =
     (let x = ent S 0 0; l = (if x \<le> 0 then x else sqrt x)
      in \<lparr>nrows = nrows B, ncols = ncols B, ent = (\<lambda>i j. ent B i j / l / l)\<rparr>)"

definition inverse_1x1 :: "real mat \<Rightarrow> real mat" where
  "inverse_1x1 A = \<lparr>nrows = 1, ncols = 1, ent = (\<lambda>i j. 1 / ent A 0 0)\<rparr>"

definition makeGivens_real :: "real \<Rightarrow> real \<Rightarrow> real \<times> real" where
  "makeGivens_real p q =
     (if q = 0 then (if p < 0 then - 1 else 1, 0)
      else if p = 0 then (0, if q < 0 then 1 else - 1)
      else if \<bar>p\<bar> > \<bar>q\<bar> then
        (let t = q / p; u = (if p < 0 then - sqrt (1 + t * t) else sqrt (1 + t * t)); c = 1 / u
         in (c, - t * c))
      else
        (let t = p / q; u = (if q < 0 then - sqrt (1 + t * t) else sqrt (1 + t * t)); s = - 1 / u
         in (- t * s, s)))"

definition example_extern :: "real extern" where
  "example_extern =
     \<lparr>llt_solve = llt_solve_1x1, llt_info = (\<lambda>S. ent S 0 0 > 0), mat_inverse = inverse_1x1,
      makeGivens = makeGivens_real,
      chi_squared_quantile = (\<lambda>n. if n = 1 then 3841 / 1000 else if n = 2 then 5991 / 1000 else 7815 / 1000),
      type_update = (\<lambda>k v dx. add_mat v dx)\<rparr>"

definition scalar_var :: "int \<Rightarrow> real \<Rightarrow> real var" where
  "scalar_var i x =
     \<lparr>type_id = i, type_size = 1,
      type_value = \<lparr>nrows = 1, ncols = 1, ent = (\<lambda>a b. x)\<rparr>, type_kind = Vec, subvariables = []\<rparr>"

definition mat_of_rows :: "real list list \<Rightarrow> real mat" where
  "mat_of_rows rs =
     \<lparr>nrows = length rs, ncols = (case rs of [] \<Rightarrow> 0 | r # _ \<Rightarrow> length r),
      ent = (\<lambda>i j. rs ! i ! j)\<rparr>"

text \<open>A state of two scalar variables at rows 0 and 1; address 2 holds a detached one.\<close>

definition scalar_state :: "real mat \<Rightarrow> real state" where
  "scalar_state C =
     \<lparr>Cov = C, variables = [0, 1],
      heap = (\<lambda>r. if r = 0 then scalar_var 0 10 else if r = 1 then scalar_var 1 20
                   else scalar_var (- 1) 30),
      next_ref = 3, clones_IMU = Map.empty, features_SLAM = Map.empty, timestamp = 0,
      imu_pose = 0, imu_v = 1, calib_dt_CAMtoIMU = 1, cam_intrinsics = [],
      cam_intrinsics_cameras = Map.empty,
      state_options = \<lparr>do_calib_camera_timeoffset = False, do_calib_camera_intrinsics = False,
                        max_clone_size = 11, max_aruco_features = 1024\<rparr>\<rparr>"

text \<open>
  Three variables of size \<open>k\<close> each, at rows \<open>0\<close>, \<open>k\<close> and \<open>2k\<close>; a state with an
  inertial variable of size 15 whose sub-variables are the pose (size 6, rows 0 to 5) with
  orientation and position, velocity and the two biases, followed by the camera time offset
  at row 15; and a symmetric matrix with non-negative diagonal to fill a covariance.
\<close>

definition plain_var :: "int \<Rightarrow> nat \<Rightarrow> type_kind \<Rightarrow> ref list \<Rightarrow> real var" where
  "plain_var i n k subs =
     \<lparr>type_id = i, type_size = n, type_value = MatrixXd_Zero n 1, type_kind = k,
      subvariables = subs\<rparr>"

definition three_state :: "nat \<Rightarrow> real mat \<Rightarrow> real state" where
  "three_state k C =
     \<lparr>Cov = C, variables = [0, 1, 2],
      heap = (\<lambda>r. plain_var (if r < 3 then int (k * r) else - 1) k Vec []),
      next_ref = 4, clones_IMU = Map.empty, features_SLAM = Map.empty, timestamp = 0,
      imu_pose = 0, imu_v = 1, calib_dt_CAMtoIMU = 2, cam_intrinsics = [],
      cam_intrinsics_cameras = Map.empty,
      state_options = \<lparr>do_calib_camera_timeoffset = False, do_calib_camera_intrinsics = False,
                        max_clone_size = 11, max_aruco_features = 1024\<rparr>\<rparr>"

definition imu_state :: "real mat \<Rightarrow> real state" where
  "imu_state C =
     \<lparr>Cov = C, variables = [0, 7],
      heap = (\<lambda>r. if r = 0 then plain_var 0 15 IMU [1, 2, 3, 4, 5, 6]
                   else if r = 1 then plain_var 0 6 PoseJPL [2, 3]
                   else if r = 2 then plain_var 0 3 JPLQuat []
                   else if r = 3 then plain_var 3 3 Vec []
                   else if r = 4 then plain_var 6 3 Vec []
                   else if r = 5 then plain_var 9 3 Vec []
                   else if r = 6 then plain_var 12 3 Vec []
                   else if r = 7 then plain_var 15 1 Vec []
                   else plain_var (- 1) 3 Landmark []),
      next_ref = 8, clones_IMU = Map.empty, features_SLAM = Map.empty, timestamp = 1,
      imu_pose = 1, imu_v = 4, calib_dt_CAMtoIMU = 7, cam_intrinsics = [],
      cam_intrinsics_cameras = Map.empty,
      state_options = \<lparr>do_calib_camera_timeoffset = True, do_calib_camera_intrinsics = False,
                        max_clone_size = 11, max_aruco_features = 1024\<rparr>\<rparr>"

definition sample_cov :: "nat \<Rightarrow> real mat" where
  "sample_cov n = \<lparr>nrows = n, ncols = n, ent = (\<lambda>i j. real (i * j + i + j))\<rparr>"

text \<open>Equality of the dimensions of two triples of matrices.\<close>

definition same_dims :: "'a mat \<times> 'a mat \<times> 'a mat \<Rightarrow> 'a mat \<times> 'a mat \<times> 'a mat \<Rightarrow> bool" where
  "same_dims t u \<longleftrightarrow>
     (case t of (a, b, c) \<Rightarrow> case u of (a', b', c') \<Rightarrow>
        nrows a = nrows a' \<and> ncols a = ncols a' \<and> nrows b = nrows b' \<and> ncols b = ncols b' \<and>
        nrows c = nrows c' \<and> ncols c = ncols c')"

section \<open>IEEE doubles with infinities and NaN\<close>

text \<open>
  The values of \<^verbatim>\<open>double\<close>: the finite ones, the two infinities and NaN, with the
  arithmetic and the comparisons of IEEE 754.  Two things are left out.  Finite results
  are not rounded, so a run is that of the program when its finite intermediate values
  are representable, as in the runs evaluated below, whose finite values are \<open>0\<close>, \<open>1\<close>
  and \<open>-1\<close>.  And zero has no sign: a finite non-zero value divided by zero is the
  infinity of the sign of the dividend, as for the zero \<open>+0\<close>.
\<close>

datatype double = Finite real | PlusInfinity | MinusInfinity | NaN

instantiation double :: "{zero,one,plus,minus,uminus,times,inverse,abs,ord}"
begin

definition zero_double :: double where
  "zero_double = Finite 0"

definition one_double :: double where
  "one_double = Finite 1"

fun plus_double :: "double \<Rightarrow> double \<Rightarrow> double" where
  "plus_double (Finite a) (Finite b) = Finite (a + b)"
| "plus_double NaN y = NaN"
| "plus_double x NaN = NaN"
| "plus_double PlusInfinity MinusInfinity = NaN"
| "plus_double MinusInfinity PlusInfinity = NaN"
| "plus_double PlusInfinity y = PlusInfinity"
| "plus_double x PlusInfinity = PlusInfinity"
| "plus_double MinusInfinity y = MinusInfinity"
| "plus_double x MinusInfinity = MinusInfinity"

fun uminus_double :: "double \<Rightarrow> double" where
  "uminus_double (Finite a) = Finite (- a)"
| "uminus_double PlusInfinity = MinusInfinity"
| "uminus_double MinusInfinity = PlusInfinity"
| "uminus_double NaN = NaN"

definition minus_double :: "double \<Rightarrow> double \<Rightarrow> double" where
  "minus_double x y = x + (- y)"

fun times_double :: "double \<Rightarrow> double \<Rightarrow> double" where
  "times_double (Finite a) (Finite b) = Finite (a * b)"
| "times_double NaN y = NaN"
| "times_double x NaN = NaN"
| "times_double (Finite a) PlusInfinity =
     (if a = 0 then NaN else if 0 < a then PlusInfinity else MinusInfinity)"
| "times_double (Finite a) MinusInfinity =
     (if a = 0 then NaN else if 0 < a then MinusInfinity else PlusInfinity)"
| "times_double PlusInfinity (Finite b) =
     (if b = 0 then NaN else if 0 < b then PlusInfinity else MinusInfinity)"
| "times_double MinusInfinity (Finite b) =
     (if b = 0 then NaN else if 0 < b then MinusInfinity else PlusInfinity)"
| "times_double PlusInfinity PlusInfinity = PlusInfinity"
| "times_double PlusInfinity MinusInfinity = MinusInfinity"
| "times_double MinusInfinity PlusInfinity = MinusInfinity"
| "times_double MinusInfinity MinusInfinity = PlusInfinity"

fun divide_double :: "double \<Rightarrow> double \<Rightarrow> double" where
  "divide_double (Finite a) (Finite b) =
     (if b \<noteq> 0 then Finite (a / b)
      else if a = 0 then NaN else if 0 < a then PlusInfinity else MinusInfinity)"
| "divide_double NaN y = NaN"
| "divide_double x NaN = NaN"
| "divide_double (Finite a) PlusInfinity = Finite 0"
| "divide_double (Finite a) MinusInfinity = Finite 0"
| "divide_double PlusInfinity (Finite b) = (if 0 \<le> b then PlusInfinity else MinusInfinity)"
| "divide_double MinusInfinity (Finite b) = (if 0 \<le> b then MinusInfinity else PlusInfinity)"
| "divide_double PlusInfinity y = NaN"
| "divide_double MinusInfinity y = NaN"

definition inverse_double :: "double \<Rightarrow> double" where
  "inverse_double x = divide (Finite 1) x"

fun abs_double :: "double \<Rightarrow> double" where
  "abs_double (Finite a) = Finite \<bar>a\<bar>"
| "abs_double PlusInfinity = PlusInfinity"
| "abs_double MinusInfinity = PlusInfinity"
| "abs_double NaN = NaN"

fun less_eq_double :: "double \<Rightarrow> double \<Rightarrow> bool" where
  "less_eq_double (Finite a) (Finite b) \<longleftrightarrow> a \<le> b"
| "less_eq_double NaN y \<longleftrightarrow> False"
| "less_eq_double x NaN \<longleftrightarrow> False"
| "less_eq_double MinusInfinity y \<longleftrightarrow> True"
| "less_eq_double x PlusInfinity \<longleftrightarrow> True"
| "less_eq_double PlusInfinity y \<longleftrightarrow> False"
| "less_eq_double x MinusInfinity \<longleftrightarrow> False"

fun less_double :: "double \<Rightarrow> double \<Rightarrow> bool" where
  "less_double (Finite a) (Finite b) \<longleftrightarrow> a < b"
| "less_double NaN y \<longleftrightarrow> False"
| "less_double x NaN \<longleftrightarrow> False"
| "less_double MinusInfinity MinusInfinity \<longleftrightarrow> False"
| "less_double MinusInfinity y \<longleftrightarrow> True"
| "less_double PlusInfinity y \<longleftrightarrow> False"
| "less_double x PlusInfinity \<longleftrightarrow> True"
| "less_double x MinusInfinity \<longleftrightarrow> False"

instance ..

end

fun sqrt_double :: "double \<Rightarrow> double" where
  "sqrt_double (Finite a) = (if a < 0 then NaN else Finite (sqrt a))"
| "sqrt_double PlusInfinity = PlusInfinity"
| "sqrt_double MinusInfinity = NaN"
| "sqrt_double NaN = NaN"

text \<open>
  Eigen's Cholesky factorisation and solve in this arithmetic, for matrices of one and of
  two rows, written out from \<^verbatim>\<open>llt_inplace::unblocked\<close> and \<^verbatim>\<open>LLT::solveInPlace\<close>.  At
  step \<open>k\<close> the routine forms the pivot \<open>x = A(k,k) - |L(k,0..k)|\<^sup>2\<close>; when \<open>x \<le> 0\<close> it
  returns at once with the status \<^verbatim>\<open>NumericalIssue\<close> and leaves the rest of the matrix
  as it is; otherwise it stores \<open>sqrt x\<close> on the diagonal and divides the column below by
  it.  The solve then runs the two triangular substitutions with whatever the lower
  triangle holds, dividing by its diagonal.  \<open>llt_factor\<close> gives the lower triangle left
  by the routine and whether the status is \<^verbatim>\<open>Success\<close>.
\<close>

definition llt_factor :: "double mat \<Rightarrow> (nat \<Rightarrow> nat \<Rightarrow> double) \<times> bool" where
  "llt_factor S =
     (let a = ent S 0 0
      in if a \<le> 0 then (ent S, False)
         else
           let l00 = sqrt_double a
           in if nrows S < 2 then ((\<lambda>i j. l00), True)
              else
                let l10 = ent S 1 0 / l00;
                    x = ent S 1 1 - l10 * l10
                in if x \<le> 0
                   then ((\<lambda>i j. if i = 0 then l00 else if j = 0 then l10 else ent S 1 1), False)
                   else ((\<lambda>i j. if i = 0 then l00 else if j = 0 then l10 else sqrt_double x),
                         True))"

definition llt_solve_double :: "double mat \<Rightarrow> double mat \<Rightarrow> double mat" where
  "llt_solve_double S B =
     (let L = fst (llt_factor S)
      in \<lparr>nrows = nrows B, ncols = ncols B,
          ent = (\<lambda>i j.
            if nrows S < 2 then ent B 0 j / L 0 0 / L 0 0
            else
              let y0 = ent B 0 j / L 0 0;
                  y1 = (ent B 1 j - L 1 0 * y0) / L 1 1;
                  x1 = y1 / L 1 1;
                  x0 = (y0 - L 1 0 * x1) / L 0 0
              in if i = 0 then x0 else x1)\<rparr>)"

text \<open>
  The other external functions, lifted from the real instance: a result is computed on
  finite arguments and is NaN otherwise.
\<close>

definition makeGivens_double :: "double \<Rightarrow> double \<Rightarrow> double \<times> double" where
  "makeGivens_double p q =
     (case (p, q) of
        (Finite a, Finite b) \<Rightarrow> (Finite (fst (makeGivens_real a b)), Finite (snd (makeGivens_real a b)))
      | _ \<Rightarrow> (NaN, NaN))"

definition double_extern :: "double extern" where
  "double_extern =
     \<lparr>llt_solve = llt_solve_double, llt_info = (\<lambda>S. snd (llt_factor S)),
      mat_inverse = (\<lambda>A. \<lparr>nrows = 1, ncols = 1, ent = (\<lambda>i j. Finite 1 / ent A 0 0)\<rparr>),
      makeGivens = makeGivens_double,
      chi_squared_quantile = (\<lambda>n. Finite (chi_squared_quantile example_extern n)),
      type_update = (\<lambda>k v dx. add_mat v dx)\<rparr>"

text \<open>A real matrix, variable and state read as values of \<^verbatim>\<open>double\<close>.\<close>

definition map_mat :: "('a \<Rightarrow> 'b) \<Rightarrow> 'a mat \<Rightarrow> 'b mat" where
  "map_mat f A = \<lparr>nrows = nrows A, ncols = ncols A, ent = (\<lambda>i j. f (ent A i j))\<rparr>"

definition map_var :: "('a \<Rightarrow> 'b) \<Rightarrow> 'a var \<Rightarrow> 'b var" where
  "map_var f x =
     \<lparr>type_id = type_id x, type_size = type_size x, type_value = map_mat f (type_value x),
      type_kind = type_kind x, subvariables = subvariables x\<rparr>"

definition map_state :: "('a \<Rightarrow> 'b) \<Rightarrow> 'a state \<Rightarrow> 'b state" where
  "map_state f s =
     \<lparr>Cov = map_mat f (Cov s), variables = variables s, heap = (\<lambda>r. map_var f (heap s r)),
      next_ref = next_ref s, clones_IMU = clones_IMU s, features_SLAM = features_SLAM s,
      timestamp = timestamp s, imu_pose = imu_pose s, imu_v = imu_v s,
      calib_dt_CAMtoIMU = calib_dt_CAMtoIMU s, cam_intrinsics = cam_intrinsics s,
      cam_intrinsics_cameras = (\<lambda>c. map_option (map_mat f) (cam_intrinsics_cameras s c)),
      state_options = state_options s\<rparr>"

section \<open>Basic facts\<close>

lemma accumulate_sum [simp]:
  fixes f :: "nat \<Rightarrow> 'a::comm_monoid_add"
  shows "accumulate f n = (\<Sum>k<n. f k)"
  by (induction n) (simp_all add: add.commute)

lemma dims_simps [simp]:
  "nrows (MatrixXd_Zero r c) = r" "ncols (MatrixXd_Zero r c) = c"
  "nrows (MatrixXd_Identity r c) = r" "ncols (MatrixXd_Identity r c) = c"
  "nrows (transpose_mat A) = ncols A" "ncols (transpose_mat A) = nrows A"
  "nrows (mult M N) = nrows M" "ncols (mult M N) = ncols N"
  "nrows (add_mat P Q) = nrows P" "ncols (add_mat P Q) = ncols P"
  "nrows (neg_mat U) = nrows U" "ncols (neg_mat U) = ncols U"
  "nrows (block A i j p q) = p" "ncols (block A i j p q) = q"
  "nrows (block_assign A i j p q B) = nrows A" "ncols (block_assign A i j p q B) = ncols A"
  "nrows (block_add P i j p q Q) = nrows P" "ncols (block_add P i j p q Q) = ncols P"
  "nrows (selfadjointView_Upper A) = nrows A" "ncols (selfadjointView_Upper A) = ncols A"
  "nrows (selfadjointView_Lower A) = nrows A" "ncols (selfadjointView_Lower A) = ncols A"
  "nrows (triangularView_Upper_assign A B) = nrows A" "ncols (triangularView_Upper_assign A B) = ncols A"
  "nrows (triangularView_Upper_add P Q) = nrows P" "ncols (triangularView_Upper_add P Q) = ncols P"
  "nrows (triangularView_Upper_sub V W) = nrows V" "ncols (triangularView_Upper_sub V W) = ncols V"
  "nrows (conservativeResizeLike_Zero Z r c) = r" "ncols (conservativeResizeLike_Zero Z r c) = c"
  by (simp_all add: MatrixXd_Zero_def MatrixXd_Identity_def transpose_mat_def mult_def add_mat_def
      neg_mat_def block_def block_assign_def block_add_def selfadjointView_Upper_def
      selfadjointView_Lower_def triangularView_Upper_assign_def triangularView_Upper_add_def
      triangularView_Upper_sub_def conservativeResizeLike_Zero_def)

lemma ent_simps [simp]:
  "ent (MatrixXd_Zero r c) i j = 0"
  "ent (MatrixXd_Identity r c) i j = (if i = j then 1 else 0)"
  "ent (transpose_mat A) i j = ent A j i"
  "ent (mult M N) i j = accumulate (\<lambda>k. ent M i k * ent N k j) (ncols M)"
  "ent (add_mat P Q) i j = ent P i j + ent Q i j"
  "ent (neg_mat U) i j = - ent U i j"
  "ent (block A i0 j0 p q) i j = ent A (i0 + i) (j0 + j)"
  "ent (block_assign A i0 j0 p q B) i j =
     (if i0 \<le> i \<and> i < i0 + p \<and> j0 \<le> j \<and> j < j0 + q then ent B (i - i0) (j - j0) else ent A i j)"
  "ent (block_add P i0 j0 p q Q) i j =
     (if i0 \<le> i \<and> i < i0 + p \<and> j0 \<le> j \<and> j < j0 + q then ent P i j + ent Q (i - i0) (j - j0) else ent P i j)"
  "ent (selfadjointView_Upper A) i j = (if i \<le> j then ent A i j else ent A j i)"
  "ent (selfadjointView_Lower A) i j = (if j \<le> i then ent A i j else ent A j i)"
  "ent (triangularView_Upper_assign A B) i j = (if i \<le> j then ent B i j else ent A i j)"
  "ent (triangularView_Upper_add P Q) i j = (if i \<le> j then ent P i j + ent Q i j else ent P i j)"
  "ent (triangularView_Upper_sub V W) i j = (if i \<le> j then ent V i j - ent W i j else ent V i j)"
  "ent (conservativeResizeLike_Zero Z r c) i j = (if i < nrows Z \<and> j < ncols Z then ent Z i j else 0)"
  by (simp_all add: MatrixXd_Zero_def MatrixXd_Identity_def transpose_mat_def mult_def add_mat_def
      neg_mat_def block_def block_assign_def block_add_def selfadjointView_Upper_def
      selfadjointView_Lower_def triangularView_Upper_assign_def triangularView_Upper_add_def
      triangularView_Upper_sub_def conservativeResizeLike_Zero_def)


lemma found_neg_iff: "found_neg A \<longleftrightarrow> (\<exists>i<nrows A. ent A i i < 0)"
  by (auto simp: found_neg_def list_ex_iff)

lemma noise_violation_iff:
  "noise_violation R \<longleftrightarrow>
     (\<exists>r<nrows R. \<exists>c<ncols R. (r = c \<and> ent R 0 0 \<noteq> ent R r c) \<or> (r \<noteq> c \<and> ent R r c \<noteq> 0))"
  unfolding noise_violation_def list_ex_iff
  by (simp add: Bex_def)

lemma marginal_inner_dims [simp]:
  "nrows (marginal_inner s vi i ks k S) = nrows S"
  "ncols (marginal_inner s vi i ks k S) = ncols S"
  by (induction ks arbitrary: k S) simp_all

lemma marginal_outer_dims [simp]:
  "nrows (marginal_outer s all is i S) = nrows S"
  "ncols (marginal_outer s all is i S) = ncols S"
  by (induction "is" arbitrary: i S) simp_all

lemma get_marginal_covariance_dims [simp]:
  "nrows (get_marginal_covariance s order) = cov_size s order"
  "ncols (get_marginal_covariance s order) = cov_size s order"
  by (simp_all add: get_marginal_covariance_def)

lemma applyOnTheLeft_adjoint_dims [simp]:
  "nrows (applyOnTheLeft_adjoint G A m j w) = nrows A"
  "ncols (applyOnTheLeft_adjoint G A m j w) = ncols A"
  by (simp_all add: applyOnTheLeft_adjoint_def Let_def)

lemma givens_step_dims: "same_dims (givens_step ext n m t) t"
  by (cases t) (simp add: givens_step_def same_dims_def Let_def)

lemma fold_givens_step_dims: "same_dims (fold (givens_step ext n) ms t) t"
proof (induction ms arbitrary: t)
  case Nil
  then show ?case by (cases t) (simp add: same_dims_def)
next
  case (Cons m ms)
  have "same_dims (fold (givens_step ext n) ms (givens_step ext n m t)) (givens_step ext n m t)"
    by (rule Cons.IH)
  with givens_step_dims [of ext n m t] show ?case
    by (cases t; cases "givens_step ext n m t";
        cases "fold (givens_step ext n) ms (givens_step ext n m t)")
       (simp add: same_dims_def)
qed

lemma fold_fold_givens_dims:
  "same_dims (fold (\<lambda>n. fold (givens_step ext n) (f n)) ns t) t"
proof (induction ns arbitrary: t)
  case Nil
  then show ?case by (cases t) (simp add: same_dims_def)
next
  case (Cons n ns)
  have "same_dims (fold (\<lambda>n. fold (givens_step ext n) (f n)) ns (fold (givens_step ext n) (f n) t))
          (fold (givens_step ext n) (f n) t)"
    by (rule Cons.IH)
  with fold_givens_step_dims [of ext n "f n" t] show ?case
    by (cases t; cases "fold (givens_step ext n) (f n) t";
        cases "fold (\<lambda>n. fold (givens_step ext n) (f n)) ns (fold (givens_step ext n) (f n) t)")
       (simp add: same_dims_def)
qed

lemma givens_qr_dims:
  assumes "givens_qr ext H_L H_R res = (H_L1, H_R1, res1)"
  shows "nrows H_L1 = nrows H_L" "ncols H_L1 = ncols H_L" "nrows H_R1 = nrows H_R"
    "ncols H_R1 = ncols H_R" "nrows res1 = nrows res" "ncols res1 = ncols res"
  using fold_fold_givens_dims [of ext "\<lambda>n. rev [Suc n..<nrows H_L]" "[0..<ncols H_L]" "(H_L, H_R, res)"] assms
  by (simp_all add: givens_qr_def same_dims_def)

lemmas example_defs = scalar_state_def example_extern_def mat_of_rows_def llt_solve_1x1_def
  inverse_1x1_def makeGivens_real_def id_of_def size_of_def scalar_var_def

lemmas update_defs = EKFUpdate_def update_in_range_def attached_def updated_covariance_def
  kalman_gain_def compute_M_a_def residual_covariance_def get_marginal_covariance_def

lemma update_cameras_Inl_iff:
  "update_cameras h cs cams = Inl e \<longleftrightarrow>
     e = OutOfRange \<and> list_ex (\<lambda>c. cams (fst c) = None) cs"
proof (induction cs arbitrary: cams)
  case Nil
  show ?case by simp
next
  case (Cons x cs)
  obtain cam_id calib where x: "x = (cam_id, calib)" by (cases x)
  show ?case
  proof (cases "cams cam_id")
    case None
    then show ?thesis by (auto simp: x)
  next
    case (Some c)
    have eq: "(cams(cam_id \<mapsto> v)) k = None \<longleftrightarrow> cams k = None" for v k
      using Some by (cases "k = cam_id") simp_all
    have "update_cameras h (x # cs) cams
            = update_cameras h cs (cams(cam_id \<mapsto> type_value (h calib)))"
      using Some by (simp add: x)
    moreover have "list_ex (\<lambda>c. cams (fst c) = None) (x # cs)
            \<longleftrightarrow> list_ex (\<lambda>c. cams (fst c) = None) cs"
      using Some by (simp add: x)
    ultimately show ?thesis
      by (simp only: Cons.IH eq)
  qed
qed

lemma chi2_example:
  "initialize_chi2 example_extern (scalar_state (mat_of_rows [[4, 0], [0, 1]])) 2 [0]
     (mat_of_rows [[1], [2]]) (mat_of_rows [[0], [1]]) (mat_of_rows [[1, 0], [0, 1]])
     (mat_of_rows [[30], [4]]) = 180"
  by (simp add: initialize_chi2_def givens_qr_def givens_step_def applyOnTheLeft_adjoint_def dot_def
      get_marginal_covariance_def example_defs Let_def lessThan_Suc eval_nat_numeral upt_rec)

lemma remaining_loop_vars:
  "snd (remaining_loop marg mid ms vs h acc) = acc @ filter (\<lambda>v. v \<noteq> marg) vs"
  by (induction vs arbitrary: h acc) simp_all

lemma remaining_loop_heap:
  "distinct vs \<Longrightarrow>
   fst (remaining_loop marg mid ms vs h acc) v =
     (if v \<in> set vs \<and> v \<noteq> marg \<and> type_id (h v) > mid
      then (h v)\<lparr>type_id := type_id (h v) - ms\<rparr> else h v)"
proof (induction vs arbitrary: h acc)
  case Nil
  then show ?case by simp
next
  case (Cons x xs)
  then show ?case by (auto simp: set_local_id_def)
qed

lemma marginalize_Cov:
  assumes "symmetric C" and "a + k \<le> nrows C"
  shows "mat_eq
     (block_assign
        (block_assign
           (block_assign
              (block_assign (MatrixXd_Zero (nrows C - k) (nrows C - k)) 0 0 a a (block C 0 0 a a))
              0 a a (nrows C - a - k) (block C 0 (a + k) a (nrows C - a - k)))
           a 0 (nrows C - a - k) a
           (transpose_mat
              (block
                 (block_assign
                    (block_assign (MatrixXd_Zero (nrows C - k) (nrows C - k)) 0 0 a a (block C 0 0 a a))
                    0 a a (nrows C - a - k) (block C 0 (a + k) a (nrows C - a - k)))
                 0 a a (nrows C - a - k))))
        a a (nrows C - a - k) (nrows C - a - k)
        (block C (a + k) (a + k) (nrows C - a - k) (nrows C - a - k)))
     (delete_rows_cols C a k)"
  using assms by (auto simp: mat_eq_def delete_rows_cols_def symmetric_def add.commute)

lemma find_type_check_iff:
  "find_type_check s vs v =
     (if v \<in> set vs \<or> (\<exists>x\<in>set vs. v \<in> set (subvariables (heap s x))) then Some v else None)"
  by (induction vs) (auto simp: check_if_subvariable_def)

lemma cloned_covariance_dims [simp]:
  "nrows (cloned_covariance C old t) = nrows C + t" "ncols (cloned_covariance C old t) = nrows C + t"
  by (simp_all add: cloned_covariance_def Let_def)

lemma cloned_covariance_ent:
  assumes "nrows C = ncols C" and "old + t \<le> nrows C"
  shows "ent (cloned_covariance C old t) x y =
     (if x < nrows C then
        (if y < nrows C then ent C x y
         else if y < nrows C + t then ent C x (old + (y - nrows C)) else 0)
      else if x < nrows C + t then
        (if y < nrows C then ent C (old + (x - nrows C)) y
         else if y < nrows C + t then ent C (old + (x - nrows C)) (old + (y - nrows C)) else 0)
      else 0)"
  using assms
  apply (simp add: cloned_covariance_def Let_def)
  apply (intro conjI impI)
   apply linarith+
  done

lemma src_idx_in_range:
  "r < cov_size s vs \<Longrightarrow> \<exists>v\<in>set vs. id_of s v \<le> src_idx s vs r \<and> src_idx s vs r < id_of s v + size_of s v"
proof (induction vs arbitrary: r)
  case Nil
  then show ?case by simp
next
  case (Cons x xs)
  show ?case
  proof (cases "r < size_of s x")
    case True
    then show ?thesis by simp
  next
    case False
    with Cons.prems have "r - size_of s x < cov_size s xs" by simp
    from Cons.IH [OF this] False show ?thesis by auto
  qed
qed

lemma marginal_inner_ent:
  "ent (marginal_inner s vi ii ks kk S) r c =
     (if ii \<le> r \<and> r < ii + size_of s vi \<and> kk \<le> c \<and> c < kk + cov_size s ks
      then ent (Cov s) (id_of s vi + (r - ii)) (src_idx s ks (c - kk)) else ent S r c)"
proof (induction ks arbitrary: kk S)
  case Nil
  then show ?case by auto
next
  case (Cons x xs)
  consider (out) "r < ii" | (out2) "ii + size_of s vi \<le> r" | (lo) "ii \<le> r" "r < ii + size_of s vi" "c < kk"
    | (here) "ii \<le> r" "r < ii + size_of s vi" "kk \<le> c" "c < kk + size_of s x"
    | (later) "ii \<le> r" "r < ii + size_of s vi" "kk + size_of s x \<le> c"
    by linarith
  then show ?case
  proof cases
    case out
    then show ?thesis by (simp add: Cons.IH)
  next
    case out2
    then show ?thesis by (simp add: Cons.IH)
  next
    case lo
    then show ?thesis by (simp add: Cons.IH)
  next
    case here
    then have "c - kk < size_of s x" by linarith
    with here show ?thesis by (simp add: Cons.IH)
  next
    case later
    then have "\<not> c - kk < size_of s x" "kk \<le> c" "c - (kk + size_of s x) = c - kk - size_of s x"
      "\<not> c < kk + size_of s x"
      by linarith+
    with later show ?thesis by (simp add: Cons.IH add.assoc)
  qed
qed

lemma marginal_outer_ent:
  "ent (marginal_outer s all is ii S) r c =
     (if ii \<le> r \<and> r < ii + cov_size s is \<and> c < cov_size s all
      then ent (Cov s) (src_idx s is (r - ii)) (src_idx s all c) else ent S r c)"
proof (induction "is" arbitrary: ii S)
  case Nil
  then show ?case by auto
next
  case (Cons x xs)
  consider (out) "\<not> c < cov_size s all" | (lo) "c < cov_size s all" "r < ii"
    | (here) "c < cov_size s all" "ii \<le> r" "r < ii + size_of s x"
    | (later) "c < cov_size s all" "ii + size_of s x \<le> r"
    by linarith
  then show ?case
  proof cases
    case out
    then show ?thesis by (simp add: Cons.IH marginal_inner_ent)
  next
    case lo
    then show ?thesis by (simp add: Cons.IH marginal_inner_ent)
  next
    case here
    then have "r - ii < size_of s x" by linarith
    with here show ?thesis by (simp add: Cons.IH marginal_inner_ent)
  next
    case later
    then have "\<not> r - ii < size_of s x" "ii \<le> r" "r - (ii + size_of s x) = r - ii - size_of s x"
      "\<not> r < ii + size_of s x"
      by linarith+
    with later show ?thesis by (simp add: Cons.IH marginal_inner_ent add.assoc)
  qed
qed

lemma get_marginal_covariance_ent:
  "ent (get_marginal_covariance s order) r c =
     (if r < cov_size s order \<and> c < cov_size s order
      then ent (Cov s) (src_idx s order r) (src_idx s order c) else 0)"
  by (simp add: get_marginal_covariance_def marginal_outer_ent)

lemma initial_inner_dims [simp]:
  "nrows (initial_inner s cov vi ii ks kk C) = nrows C"
  "ncols (initial_inner s cov vi ii ks kk C) = ncols C"
  by (induction ks arbitrary: kk C) simp_all

lemma initial_outer_dims [simp]:
  "nrows (initial_outer s cov all is ii C) = nrows C"
  "ncols (initial_outer s cov all is ii C) = ncols C"
  by (induction "is" arbitrary: ii C) simp_all

lemma src_idx_shift: "src_idx s (v # vs) (size_of s v + c) = src_idx s vs c"
  by simp

lemma image_rest_subset:
  "src_idx s vs ` {..<cov_size s vs} \<subseteq> src_idx s (v # vs) ` {..<cov_size s (v # vs)}"
proof
  fix y assume "y \<in> src_idx s vs ` {..<cov_size s vs}"
  then obtain c where c: "c < cov_size s vs" "y = src_idx s vs c" by auto
  then have "y = src_idx s (v # vs) (size_of s v + c)" "size_of s v + c < cov_size s (v # vs)"
    by simp_all
  then show "y \<in> src_idx s (v # vs) ` {..<cov_size s (v # vs)}" by blast
qed

lemma image_head:
  assumes "id_of s v \<le> y" "y < id_of s v + size_of s v"
  shows "y \<in> src_idx s (v # vs) ` {..<cov_size s (v # vs)}"
proof -
  have l: "y - id_of s v < size_of s v" using assms by linarith
  then have "y = src_idx s (v # vs) (y - id_of s v)" "y - id_of s v < cov_size s (v # vs)"
    using assms(1) by simp_all
  then show ?thesis by blast
qed

lemma head_not_in_rest_image:
  assumes "disjoint_ranges s (v # vs)" "c < size_of s v"
  shows "id_of s v + c \<notin> src_idx s vs ` {..<cov_size s vs}"
proof
  assume "id_of s v + c \<in> src_idx s vs ` {..<cov_size s vs}"
  then obtain r where r: "r < cov_size s vs" "id_of s v + c = src_idx s vs r" by auto
  from src_idx_in_range [OF r(1)] obtain w where w: "w \<in> set vs"
    "id_of s w \<le> src_idx s vs r" "src_idx s vs r < id_of s w + size_of s w" by blast
  from assms(1) w(1)
  have "id_of s v + size_of s v \<le> id_of s w \<or> id_of s w + size_of s w \<le> id_of s v" by simp
  with w r assms(2) show False by linarith
qed

lemma initial_inner_frame:
  "\<not> (id_of s vi \<le> x \<and> x < id_of s vi + size_of s vi \<and> y \<in> src_idx s ks ` {..<cov_size s ks})
   \<Longrightarrow> ent (initial_inner s cov vi ii ks kk C) x y = ent C x y"
proof (induction ks arbitrary: kk C)
  case Nil
  then show ?case by simp
next
  case (Cons v vs)
  let ?C1 = "block_assign C (id_of s vi) (id_of s v) (size_of s vi) (size_of s v)
          (block cov ii kk (size_of s vi) (size_of s v))"
  have rest: "\<not> (id_of s vi \<le> x \<and> x < id_of s vi + size_of s vi \<and> y \<in> src_idx s vs ` {..<cov_size s vs})"
    using Cons.prems image_rest_subset [of s vs v] by blast
  have here: "\<not> (id_of s vi \<le> x \<and> x < id_of s vi + size_of s vi \<and> id_of s v \<le> y \<and> y < id_of s v + size_of s v)"
    using Cons.prems image_head [of s v y vs] by blast
  have "ent (initial_inner s cov vi ii (v # vs) kk C) x y = ent ?C1 x y"
    using Cons.IH [OF rest] by simp
  also have "\<dots> = ent C x y" using here by auto
  finally show ?case .
qed

lemma initial_inner_written:
  "disjoint_ranges s ks \<Longrightarrow> r < size_of s vi \<Longrightarrow> c < cov_size s ks \<Longrightarrow>
   ent (initial_inner s cov vi ii ks kk C) (id_of s vi + r) (src_idx s ks c) = ent cov (ii + r) (kk + c)"
proof (induction ks arbitrary: kk C c)
  case Nil
  then show ?case by simp
next
  case (Cons v vs)
  let ?C1 = "block_assign C (id_of s vi) (id_of s v) (size_of s vi) (size_of s v)
          (block cov ii kk (size_of s vi) (size_of s v))"
  show ?case
  proof (cases "c < size_of s v")
    case True
    have "id_of s v + c \<notin> src_idx s vs ` {..<cov_size s vs}"
      by (rule head_not_in_rest_image [OF Cons.prems(1) True])
    then have "ent (initial_inner s cov vi ii vs (kk + size_of s v) ?C1) (id_of s vi + r) (id_of s v + c)
                 = ent ?C1 (id_of s vi + r) (id_of s v + c)"
      by (intro initial_inner_frame) blast
    also have "\<dots> = ent cov (ii + r) (kk + c)"
      using True Cons.prems(2) by simp
    finally show ?thesis using True by simp
  next
    case False
    have d: "disjoint_ranges s vs" using Cons.prems(1) by simp
    have b: "c - size_of s v < cov_size s vs" using Cons.prems(3) False by simp
    have "ent (initial_inner s cov vi ii vs (kk + size_of s v) ?C1) (id_of s vi + r)
            (src_idx s vs (c - size_of s v)) = ent cov (ii + r) (kk + size_of s v + (c - size_of s v))"
      by (rule Cons.IH [OF d Cons.prems(2) b])
    moreover have "kk + size_of s v + (c - size_of s v) = kk + c" using False by simp
    ultimately show ?thesis using False by simp
  qed
qed

lemma initial_outer_frame:
  "\<not> (x \<in> src_idx s is ` {..<cov_size s is} \<and> y \<in> src_idx s all ` {..<cov_size s all})
   \<Longrightarrow> ent (initial_outer s cov all is ii C) x y = ent C x y"
proof (induction "is" arbitrary: ii C)
  case Nil
  then show ?case by simp
next
  case (Cons v vs)
  let ?C1 = "initial_inner s cov v ii all 0 C"
  have rest: "\<not> (x \<in> src_idx s vs ` {..<cov_size s vs} \<and> y \<in> src_idx s all ` {..<cov_size s all})"
    using Cons.prems image_rest_subset [of s vs v] by blast
  have here: "\<not> (id_of s v \<le> x \<and> x < id_of s v + size_of s v \<and> y \<in> src_idx s all ` {..<cov_size s all})"
    using Cons.prems image_head [of s v x vs] by blast
  have "ent (initial_outer s cov all (v # vs) ii C) x y = ent ?C1 x y"
    using Cons.IH [OF rest] by simp
  also have "\<dots> = ent C x y" by (rule initial_inner_frame [OF here])
  finally show ?case .
qed

lemma initial_outer_written:
  "disjoint_ranges s is \<Longrightarrow> disjoint_ranges s all \<Longrightarrow> r < cov_size s is \<Longrightarrow> c < cov_size s all \<Longrightarrow>
   ent (initial_outer s cov all is ii C) (src_idx s is r) (src_idx s all c) = ent cov (ii + r) c"
proof (induction "is" arbitrary: ii C r)
  case Nil
  then show ?case by simp
next
  case (Cons v vs)
  let ?C1 = "initial_inner s cov v ii all 0 C"
  show ?case
  proof (cases "r < size_of s v")
    case True
    have "id_of s v + r \<notin> src_idx s vs ` {..<cov_size s vs}"
      by (rule head_not_in_rest_image [OF Cons.prems(1) True])
    then have "ent (initial_outer s cov all vs (ii + size_of s v) ?C1) (id_of s v + r) (src_idx s all c)
                 = ent ?C1 (id_of s v + r) (src_idx s all c)"
      by (intro initial_outer_frame) blast
    also have "\<dots> = ent cov (ii + r) (0 + c)"
      by (rule initial_inner_written [OF Cons.prems(2) True Cons.prems(4)])
    finally show ?thesis using True by simp
  next
    case False
    have d: "disjoint_ranges s vs" using Cons.prems(1) by simp
    have b: "r - size_of s v < cov_size s vs" using Cons.prems(3) False by simp
    have "ent (initial_outer s cov all vs (ii + size_of s v) ?C1)
            (src_idx s vs (r - size_of s v)) (src_idx s all c) = ent cov (ii + size_of s v + (r - size_of s v)) c"
      by (rule Cons.IH [OF d Cons.prems(2) b Cons.prems(4)])
    moreover have "ii + size_of s v + (r - size_of s v) = ii + r" using False by simp
    ultimately show ?thesis using False by simp
  qed
qed

lemma Cov_update_simps [simp]:
  "size_of (s\<lparr>Cov := X\<rparr>) v = size_of s v"
  "id_of (s\<lparr>Cov := X\<rparr>) v = id_of s v"
  by (simp_all add: size_of_def id_of_def)

lemma cov_size_Cov_update [simp]: "cov_size (s\<lparr>Cov := X\<rparr>) vs = cov_size s vs"
  by (induction vs) simp_all

lemma src_idx_Cov_update [simp]: "src_idx (s\<lparr>Cov := X\<rparr>) vs r = src_idx s vs r"
  by (induction vs arbitrary: r) simp_all

lemma sum_lessThan_add:
  fixes f :: "nat \<Rightarrow> real"
  shows "(\<Sum>c<a + b. f c) = (\<Sum>c<a. f c) + (\<Sum>c<b. f (a + c))"
  by (induction b) (simp_all add: add.assoc [symmetric])

lemma sum_src_idx_Cons:
  "(\<Sum>c<cov_size s (v # vs). g (src_idx s (v # vs) c) c) =
   (\<Sum>k<size_of s v. g (id_of s v + k) k) + (\<Sum>c<cov_size s vs. g (src_idx s vs c) (size_of s v + c) :: real)"
  by (simp add: sum_lessThan_add)

lemma Cov_PhiT_loop_dims [simp]:
  "nrows (Cov_PhiT_loop s Phi zs A) = nrows A" "ncols (Cov_PhiT_loop s Phi zs A) = ncols A"
  by (induction zs arbitrary: A) auto

lemma Phi_Cov_PhiT_loop_dims [simp]:
  "nrows (Phi_Cov_PhiT_loop s Phi CP zs A) = nrows A" "ncols (Phi_Cov_PhiT_loop s Phi CP zs A) = ncols A"
  by (induction zs arbitrary: A) auto

lemma Cov_PhiT_loop_ent:
  fixes s :: "real state"
  shows "ent (Cov_PhiT_loop s Phi (zip vs (positions s vs it)) A) x j =
     ent A x j + (\<Sum>c<cov_size s vs. ent (Cov s) x (src_idx s vs c) * ent Phi j (it + c))"
proof (induction vs arbitrary: it A)
  case Nil
  then show ?case by simp
next
  case (Cons v vs)
  show ?case
    by (simp only: positions.simps zip_Cons_Cons Cov_PhiT_loop.simps Cons.IH
        sum_src_idx_Cons [where g = "\<lambda>y c. ent (Cov s) x y * ent Phi j (it + c)"])
       (simp add: add.assoc)
qed

lemma Phi_Cov_PhiT_loop_ent:
  fixes s :: "real state"
  shows "ent (Phi_Cov_PhiT_loop s Phi CP (zip vs (positions s vs it)) A) i j =
     ent A i j + (\<Sum>c<cov_size s vs. ent Phi i (it + c) * ent CP (src_idx s vs c) j)"
proof (induction vs arbitrary: it A)
  case Nil
  then show ?case by simp
next
  case (Cons v vs)
  show ?case
    by (simp only: positions.simps zip_Cons_Cons Phi_Cov_PhiT_loop.simps Cons.IH
        sum_src_idx_Cons [where g = "\<lambda>y c. ent Phi i (it + c) * ent CP y j"])
       (simp add: add.assoc)
qed

lemma src_idx_contiguous:
  "contiguous s vs \<Longrightarrow> list_all (attached s) vs \<Longrightarrow> c < cov_size s vs \<Longrightarrow>
   src_idx s vs c = id_of s (hd vs) + c"
proof (induction s vs arbitrary: c rule: contiguous.induct)
  case (1 s)
  then show ?case by simp
next
  case (2 s v)
  then show ?case by simp
next
  case (3 s v w vs)
  show ?case
  proof (cases "c < size_of s v")
    case True
    then show ?thesis by simp
  next
    case False
    have "type_id (heap s w) = type_id (heap s v) + int (type_size (heap s v))"
      "0 \<le> type_id (heap s v)"
      using "3.prems"(1,2) by (simp_all add: attached_def)
    then have n: "id_of s w = id_of s v + size_of s v"
      by (simp add: id_of_def size_of_def nat_add_distrib)
    have "src_idx s (w # vs) (c - size_of s v) = id_of s (hd (w # vs)) + (c - size_of s v)"
      using "3.prems" False by (intro "3.IH") simp_all
    with False n show ?thesis by simp
  qed
qed

lemma sum_delta_right:
  fixes g :: "nat \<Rightarrow> real"
  shows "(\<Sum>c<m. g c * (if j = c then 1 else 0)) = (if j < m then g j else 0)"
proof -
  have "(\<Sum>c<m. g c * (if j = c then 1 else 0)) = (\<Sum>c\<in>{..<m}. if c = j then g c else 0)"
    by (rule sum.cong) auto
  then show ?thesis by simp
qed

lemma sum_delta_left:
  fixes g :: "nat \<Rightarrow> real"
  shows "(\<Sum>c<m. (if i = c then 1 else 0) * g c) = (if i < m then g i else 0)"
proof -
  have "(\<Sum>c<m. (if i = c then 1 else 0) * g c) = (\<Sum>c\<in>{..<m}. if c = i then g c else 0)"
    by (rule sum.cong) auto
  then show ?thesis by simp
qed

lemma contiguous_end:
  "contiguous s vs \<Longrightarrow> list_all (attached s) vs \<Longrightarrow> vs \<noteq> [] \<Longrightarrow>
   id_of s (hd vs) + cov_size s vs \<le> nrows (Cov s) \<and> id_of s (hd vs) + cov_size s vs \<le> ncols (Cov s)"
proof (induction s vs rule: contiguous.induct)
  case (1 s)
  then show ?case by simp
next
  case (2 s v)
  then show ?case by (simp add: attached_def)
next
  case (3 s v w vs)
  have "type_id (heap s w) = type_id (heap s v) + int (type_size (heap s v))"
    "0 \<le> type_id (heap s v)"
    using "3.prems"(1,2) by (simp_all add: attached_def)
  then have n: "id_of s w = id_of s v + size_of s v"
    by (simp add: id_of_def size_of_def nat_add_distrib)
  have "id_of s (hd (w # vs)) + cov_size s (w # vs) \<le> nrows (Cov s) \<and>
        id_of s (hd (w # vs)) + cov_size s (w # vs) \<le> ncols (Cov s)"
    using "3.prems" by (intro "3.IH") simp_all
  with n show ?case by (simp add: add.assoc)
qed


lemma symmetricD: "symmetric A \<Longrightarrow> i < nrows A \<Longrightarrow> j < nrows A \<Longrightarrow> ent A i j = ent A j i"
  by (simp add: symmetric_def)

lemma src_idx_bound:
  assumes "list_all (attached s) vs" "c < cov_size s vs"
  shows "src_idx s vs c < nrows (Cov s)"
proof -
  from src_idx_in_range [OF assms(2)] obtain v where
    v: "v \<in> set vs" "src_idx s vs c < id_of s v + size_of s v" by blast
  with assms(1) have "attached s v" by (simp add: list_all_iff)
  with v(2) show ?thesis by (simp add: attached_def)
qed

lemma congruence_symmetric:
  fixes A :: "nat \<Rightarrow> nat \<Rightarrow> real"
  assumes "\<And>c d. c < n \<Longrightarrow> d < n \<Longrightarrow> A c d = A d c"
  shows "(\<Sum>c<n. F i c * (\<Sum>d<n. A c d * F j d)) = (\<Sum>c<n. F j c * (\<Sum>d<n. A c d * F i d))"
proof -
  have "(\<Sum>c<n. F i c * (\<Sum>d<n. A c d * F j d)) = (\<Sum>c<n. \<Sum>d<n. F i c * A c d * F j d)"
    by (simp add: sum_distrib_left mult.assoc)
  also have "\<dots> = (\<Sum>d<n. \<Sum>c<n. F i c * A c d * F j d)"
    by (rule sum.swap)
  also have "\<dots> = (\<Sum>d<n. \<Sum>c<n. F j d * A d c * F i c)"
  proof (intro sum.cong refl)
    fix d c assume "d \<in> {..<n}" "c \<in> {..<n}"
    then have e: "A c d = A d c" using assms by simp
    show "F i c * A c d * F j d = F j d * A d c * F i c"
      by (simp add: e mult.commute mult.left_commute)
  qed
  also have "\<dots> = (\<Sum>c<n. F j c * (\<Sum>d<n. A c d * F i d))"
    by (simp add: sum_distrib_left mult.assoc)
  finally show ?thesis .
qed








lemma timeoffset_covariance_dims [simp]:
  "nrows (timeoffset_covariance C p d J) = nrows C" "ncols (timeoffset_covariance C p d J) = ncols C"
  by (simp_all add: timeoffset_covariance_def Let_def)





lemma augmented_covariance_dims [simp]:
  "nrows (augmented_covariance C n X P) = nrows C + n" "ncols (augmented_covariance C n X P) = nrows C + n"
  by (simp_all add: augmented_covariance_def Let_def)



lemma residual_covariance_dims [simp]:
  "nrows (residual_covariance s H_order H R) = nrows R"
  "ncols (residual_covariance s H_order H R) = nrows R"
  by (simp_all add: residual_covariance_def Let_def)






lemma sum_delta_row:
  fixes g :: "nat \<Rightarrow> real"
  assumes "i < n"
  shows "(\<Sum>k<n. g k * (if k = i then 1 else 0)) = g i"
proof -
  have "(\<Sum>k<n. g k * (if k = i then 1 else 0)) = (\<Sum>k\<in>{..<n}. if k = i then g k else 0)"
    by (rule sum.cong) auto
  with assms show ?thesis by simp
qed

lemma inverse_symmetric:
  fixes S X :: "nat \<Rightarrow> nat \<Rightarrow> real"
  assumes Ssym: "\<And>i j. i < n \<Longrightarrow> j < n \<Longrightarrow> S i j = S j i"
    and SX: "\<And>i j. i < n \<Longrightarrow> j < n \<Longrightarrow> (\<Sum>k<n. S i k * X k j) = (if i = j then 1 else 0)"
    and ij: "i < n" "j < n"
  shows "X i j = X j i"
proof -
  let ?T = "\<Sum>k<n. \<Sum>l<n. X k i * S k l * X l j"
  have "?T = (\<Sum>k<n. X k i * (\<Sum>l<n. S k l * X l j))"
    by (simp add: sum_distrib_left mult.assoc)
  also have "\<dots> = (\<Sum>k<n. X k i * (if k = j then 1 else 0))"
    by (intro sum.cong refl) (simp add: SX ij)
  also have "\<dots> = X j i" by (rule sum_delta_row [OF ij(2)])
  finally have a: "?T = X j i" .
  have "?T = (\<Sum>l<n. \<Sum>k<n. X k i * S k l * X l j)" by (rule sum.swap)
  also have "\<dots> = (\<Sum>l<n. X l j * (\<Sum>k<n. S l k * X k i))"
  proof (intro sum.cong refl)
    fix l assume l: "l \<in> {..<n}"
    have "(\<Sum>k<n. X k i * S k l * X l j) = (\<Sum>k<n. X l j * (S l k * X k i))"
    proof (intro sum.cong refl)
      fix k assume "k \<in> {..<n}"
      with l have "S k l = S l k" using Ssym by simp
      then show "X k i * S k l * X l j = X l j * (S l k * X k i)" by simp
    qed
    then show "(\<Sum>k<n. X k i * S k l * X l j) = X l j * (\<Sum>k<n. S l k * X k i)"
      by (simp add: sum_distrib_left)
  qed
  also have "\<dots> = (\<Sum>l<n. X l j * (if l = i then 1 else 0))"
    by (intro sum.cong refl) (simp add: SX ij)
  also have "\<dots> = X i j" by (rule sum_delta_row [OF ij(1)])
  finally have "?T = X i j" .
  with a show ?thesis by simp
qed

lemma inverse_quadratic_nonneg:
  fixes S X :: "nat \<Rightarrow> nat \<Rightarrow> real"
  assumes psd: "\<And>w. 0 \<le> (\<Sum>k<n. \<Sum>l<n. w k * S k l * w l)"
    and SX: "\<And>i j. i < n \<Longrightarrow> j < n \<Longrightarrow> (\<Sum>k<n. S i k * X k j) = (if i = j then 1 else 0)"
  shows "0 \<le> (\<Sum>k<n. \<Sum>j<n. v k * X k j * v j)"
proof -
  define w where "w k = (\<Sum>j<n. X k j * v j)" for k
  have Sw: "(\<Sum>l<n. S k l * w l) = v k" if k: "k < n" for k
  proof -
    have "(\<Sum>l<n. S k l * w l) = (\<Sum>l<n. \<Sum>j<n. S k l * X l j * v j)"
      by (simp add: w_def sum_distrib_left mult.assoc)
    also have "\<dots> = (\<Sum>j<n. \<Sum>l<n. S k l * X l j * v j)" by (rule sum.swap)
    also have "\<dots> = (\<Sum>j<n. (\<Sum>l<n. S k l * X l j) * v j)"
      by (simp add: sum_distrib_right)
    also have "\<dots> = (\<Sum>j<n. v j * (if j = k then 1 else 0))"
      by (intro sum.cong refl) (auto simp: SX k)
    also have "\<dots> = v k" by (rule sum_delta_row [OF k])
    finally show ?thesis .
  qed
  have "(\<Sum>k<n. \<Sum>l<n. w k * S k l * w l) = (\<Sum>k<n. w k * (\<Sum>l<n. S k l * w l))"
    by (simp add: sum_distrib_left mult.assoc)
  also have "\<dots> = (\<Sum>k<n. w k * v k)"
    by (intro sum.cong refl) (simp add: Sw)
  also have "\<dots> = (\<Sum>k<n. \<Sum>j<n. v k * X k j * v j)"
    by (simp add: w_def sum_distrib_left sum_distrib_right mult.commute mult.left_commute)
  finally show ?thesis using psd [of w] by simp
qed

lemma congruence_quadratic:
  fixes H :: "nat \<Rightarrow> nat \<Rightarrow> real" and P :: "nat \<Rightarrow> nat \<Rightarrow> real"
  shows "(\<Sum>i<n. \<Sum>j<n. v i * (\<Sum>d<m. (\<Sum>c<m. H i c * P c d) * H j d) * v j)
       = (\<Sum>c<m. \<Sum>d<m. (\<Sum>i<n. v i * H i c) * P c d * (\<Sum>j<n. v j * H j d))"
proof -
  have "(\<Sum>i<n. \<Sum>j<n. v i * (\<Sum>d<m. (\<Sum>c<m. H i c * P c d) * H j d) * v j)
      = (\<Sum>i<n. \<Sum>j<n. \<Sum>d<m. \<Sum>c<m. (v i * H i c) * P c d * (v j * H j d))"
    by (simp add: sum_distrib_left sum_distrib_right mult_ac)
  also have "\<dots> = (\<Sum>i<n. \<Sum>d<m. \<Sum>j<n. \<Sum>c<m. (v i * H i c) * P c d * (v j * H j d))"
    by (rule sum.cong [OF refl], rule sum.swap)
  also have "\<dots> = (\<Sum>d<m. \<Sum>i<n. \<Sum>j<n. \<Sum>c<m. (v i * H i c) * P c d * (v j * H j d))"
    by (rule sum.swap)
  also have "\<dots> = (\<Sum>d<m. \<Sum>i<n. \<Sum>c<m. \<Sum>j<n. (v i * H i c) * P c d * (v j * H j d))"
    by (rule sum.cong [OF refl], rule sum.cong [OF refl], rule sum.swap)
  also have "\<dots> = (\<Sum>d<m. \<Sum>c<m. \<Sum>i<n. \<Sum>j<n. (v i * H i c) * P c d * (v j * H j d))"
    by (rule sum.cong [OF refl], rule sum.swap)
  also have "\<dots> = (\<Sum>c<m. \<Sum>d<m. \<Sum>i<n. \<Sum>j<n. (v i * H i c) * P c d * (v j * H j d))"
    by (rule sum.swap)
  also have "\<dots> = (\<Sum>c<m. \<Sum>d<m. (\<Sum>i<n. v i * H i c) * P c d * (\<Sum>j<n. v j * H j d))"
    by (simp add: sum_distrib_left sum_distrib_right mult_ac)
  finally show ?thesis .
qed

lemma reindex_sum:
  fixes u g :: "nat \<Rightarrow> real" and \<sigma> :: "nat \<Rightarrow> nat"
  assumes "\<And>c. c < m \<Longrightarrow> \<sigma> c < N"
  shows "(\<Sum>x<N. (\<Sum>c<m. if \<sigma> c = x then u c else 0) * g x) = (\<Sum>c<m. u c * g (\<sigma> c))"
proof -
  have "(\<Sum>x<N. (\<Sum>c<m. if \<sigma> c = x then u c else 0) * g x)
      = (\<Sum>x<N. \<Sum>c<m. if x = \<sigma> c then u c * g x else 0)"
    by (simp add: sum_distrib_right if_distrib [of "\<lambda>t. t * _"] eq_commute cong: if_cong)
  also have "\<dots> = (\<Sum>c<m. \<Sum>x<N. if x = \<sigma> c then u c * g x else 0)" by (rule sum.swap)
  also have "\<dots> = (\<Sum>c<m. u c * g (\<sigma> c))"
    by (intro sum.cong refl) (simp add: assms)
  finally show ?thesis .
qed

lemma principal_quadratic_nonneg:
  fixes C :: "nat \<Rightarrow> nat \<Rightarrow> real" and \<sigma> :: "nat \<Rightarrow> nat" and u :: "nat \<Rightarrow> real"
  assumes psd: "\<And>y. 0 \<le> (\<Sum>x<N. \<Sum>z<N. y x * C x z * y z)"
    and bound: "\<And>c. c < m \<Longrightarrow> \<sigma> c < N"
  shows "0 \<le> (\<Sum>c<m. \<Sum>d<m. u c * C (\<sigma> c) (\<sigma> d) * u d)"
proof -
  define y where "y x = (\<Sum>c<m. if \<sigma> c = x then u c else 0)" for x
  have inner: "(\<Sum>z<N. y z * C x z) = (\<Sum>d<m. u d * C x (\<sigma> d))" for x
    unfolding y_def
    using reindex_sum [where g = "\<lambda>z. C x z" and u = u, OF bound] by simp
  have "(\<Sum>x<N. \<Sum>z<N. y x * C x z * y z) = (\<Sum>x<N. y x * (\<Sum>z<N. y z * C x z))"
    by (simp add: sum_distrib_left mult_ac)
  also have "\<dots> = (\<Sum>x<N. y x * (\<Sum>d<m. u d * C x (\<sigma> d)))"
    by (simp only: inner)
  also have "\<dots> = (\<Sum>c<m. u c * (\<Sum>d<m. u d * C (\<sigma> c) (\<sigma> d)))"
    unfolding y_def
    using reindex_sum [where g = "\<lambda>x. \<Sum>d<m. u d * C x (\<sigma> d)" and u = u, OF bound] by simp
  also have "\<dots> = (\<Sum>c<m. \<Sum>d<m. u c * C (\<sigma> c) (\<sigma> d) * u d)"
    by (simp add: sum_distrib_left mult_ac)
  finally show ?thesis using psd [of y] by simp
qed

lemma M_i_loop_dims [simp]:
  "nrows (M_i_loop s H var zs M) = nrows M" "ncols (M_i_loop s H var zs M) = ncols M"
  by (induction zs arbitrary: M) auto

lemma M_a_loop_dims [simp]:
  "nrows (M_a_loop s H zs r vs M) = nrows M" "ncols (M_a_loop s H zs r vs M) = ncols M"
  by (induction vs arbitrary: M) auto

lemma compute_M_a_dims [simp]:
  "nrows (compute_M_a s H_order H r) = nrows (Cov s)" "ncols (compute_M_a s H_order H r) = r"
  by (simp_all add: compute_M_a_def)

lemma mult_congruence_symmetric:
  fixes M :: "real mat"
  assumes "ncols A = ncols M" and "\<And>c d. c < ncols M \<Longrightarrow> d < ncols M \<Longrightarrow> ent M c d = ent M d c"
  shows "ent (mult (mult A M) (transpose_mat A)) a b = ent (mult (mult A M) (transpose_mat A)) b a"
proof -
  define n where "n = ncols M"
  have P: "ent (mult (mult A M) (transpose_mat A)) i j
         = (\<Sum>c<n. ent A i c * (\<Sum>d<n. ent M c d * ent A j d))" for i j
  proof -
    have "ent (mult (mult A M) (transpose_mat A)) i j
        = (\<Sum>d<n. (\<Sum>c<n. ent A i c * ent M c d) * ent A j d)"
      using assms(1) by (simp add: n_def)
    also have "\<dots> = (\<Sum>d<n. \<Sum>c<n. ent A i c * (ent M c d * ent A j d))"
      by (simp add: sum_distrib_right mult.assoc)
    also have "\<dots> = (\<Sum>c<n. \<Sum>d<n. ent A i c * (ent M c d * ent A j d))"
      by (rule sum.swap)
    also have "\<dots> = (\<Sum>c<n. ent A i c * (\<Sum>d<n. ent M c d * ent A j d))"
      by (simp add: sum_distrib_left)
    finally show ?thesis .
  qed
  show ?thesis unfolding P by (rule congruence_symmetric) (rule assms(2) [unfolded n_def [symmetric]])
qed

lemma residual_covariance_psd:
  assumes "positive_semidefinite (Cov s)" and "positive_semidefinite R"
    and "nrows H = nrows R" and "ncols H = cov_size s H_order" and "list_all (attached s) H_order"
  shows "0 \<le> (\<Sum>k<nrows R. \<Sum>l<nrows R.
            w k * ent (selfadjointView_Upper (residual_covariance s H_order H R)) k l * w l)"
proof -
  define n where "n = nrows R"
  define m where "m = cov_size s H_order"
  define P where "P = get_marginal_covariance s H_order"
  define HPH where "HPH = mult (mult H P) (transpose_mat H)"
  have symC: "symmetric (Cov s)" and symR: "symmetric R"
    using assms(1,2) by (simp_all add: positive_semidefinite_def)
  have Pe: "ent P c d = ent (Cov s) (src_idx s H_order c) (src_idx s H_order d)"
    if "c < m" "d < m" for c d
    using that by (simp add: P_def get_marginal_covariance_ent m_def)
  have Psym: "ent P c d = ent P d c" if "c < ncols P" "d < ncols P" for c d
  proof -
    from that have cd: "c < m" "d < m" by (simp_all add: P_def m_def)
    then have "src_idx s H_order c < nrows (Cov s)" "src_idx s H_order d < nrows (Cov s)"
      using src_idx_bound [OF assms(5)] by (simp_all add: m_def)
    from symmetricD [OF symC this] show ?thesis by (simp add: Pe cd)
  qed
  have HPHsym: "ent HPH i j = ent HPH j i" for i j
    unfolding HPH_def
    by (rule mult_congruence_symmetric) (simp_all add: assms(4) P_def Psym [unfolded P_def])
  have Rsym: "ent R i j = ent R j i" if "i < n" "j < n" for i j
    using symmetricD [OF symR] that by (simp add: n_def)
  have Se: "ent (selfadjointView_Upper (residual_covariance s H_order H R)) i j = ent HPH i j + ent R i j"
    if "i < n" "j < n" for i j
    using HPHsym [of i j] Rsym [OF that]
    by (simp add: residual_covariance_def Let_def HPH_def P_def)
  have HPHe: "ent HPH i j = (\<Sum>d<m. (\<Sum>c<m. ent H i c * ent P c d) * ent H j d)" for i j
    by (simp add: HPH_def P_def m_def assms(4))
  have q1: "0 \<le> (\<Sum>i<n. \<Sum>j<n. w i * ent HPH i j * w j)"
  proof -
    define u where "u c = (\<Sum>i<n. w i * ent H i c)" for c
    have "(\<Sum>i<n. \<Sum>j<n. w i * ent HPH i j * w j) = (\<Sum>c<m. \<Sum>d<m. u c * ent P c d * u d)"
      unfolding HPHe u_def by (rule congruence_quadratic)
    also have "\<dots> = (\<Sum>c<m. \<Sum>d<m. u c * ent (Cov s) (src_idx s H_order c) (src_idx s H_order d) * u d)"
      by (intro sum.cong refl) (simp add: Pe)
    finally have e: "(\<Sum>i<n. \<Sum>j<n. w i * ent HPH i j * w j)
        = (\<Sum>c<m. \<Sum>d<m. u c * ent (Cov s) (src_idx s H_order c) (src_idx s H_order d) * u d)" .
    have "0 \<le> (\<Sum>c<m. \<Sum>d<m. u c * ent (Cov s) (src_idx s H_order c) (src_idx s H_order d) * u d)"
    proof (rule principal_quadratic_nonneg [where N = "nrows (Cov s)"])
      fix y :: "nat \<Rightarrow> real"
      show "0 \<le> (\<Sum>x<nrows (Cov s). \<Sum>z<nrows (Cov s). y x * ent (Cov s) x z * y z)"
        using assms(1) by (simp add: positive_semidefinite_def quadratic_form_def)
    next
      fix c assume "c < m"
      then show "src_idx s H_order c < nrows (Cov s)"
        using src_idx_bound [OF assms(5)] by (simp add: m_def)
    qed
    with e show ?thesis by simp
  qed
  have q2: "0 \<le> (\<Sum>i<n. \<Sum>j<n. w i * ent R i j * w j)"
    using assms(2) by (simp add: positive_semidefinite_def quadratic_form_def n_def)
  have "(\<Sum>k<n. \<Sum>l<n. w k * ent (selfadjointView_Upper (residual_covariance s H_order H R)) k l * w l)
      = (\<Sum>k<n. \<Sum>l<n. w k * ent HPH k l * w l + w k * ent R k l * w l)"
  proof (intro sum.cong refl)
    fix k l assume "k \<in> {..<n}" "l \<in> {..<n}"
    then have kl: "k < n" "l < n" by simp_all
    show "w k * ent (selfadjointView_Upper (residual_covariance s H_order H R)) k l * w l
            = w k * ent HPH k l * w l + w k * ent R k l * w l"
      unfolding Se [OF kl] by (simp add: algebra_simps)
  qed
  also have "\<dots> = (\<Sum>i<n. \<Sum>j<n. w i * ent HPH i j * w j) + (\<Sum>i<n. \<Sum>j<n. w i * ent R i j * w j)"
    by (simp add: sum.distrib)
  finally show ?thesis using q1 q2 by (simp add: n_def)
qed

lemma EKFUpdate_Cov:
  assumes "EKFUpdate ext s H_order H res R = Inr s'"
  shows "Cov s' = updated_covariance ext s H_order H res R"
proof -
  define K where "K = kalman_gain ext s H_order H res R"
  define C where "C = updated_covariance ext s H_order H res R"
  show ?thesis
    using assms unfolding EKFUpdate_def Let_def K_def [symmetric] C_def [symmetric]
    by (auto split: if_splits sum.splits)
qed

lemma sample_cov_symmetric: "symmetric (sample_cov n)"
  by (simp add: symmetric_def sample_cov_def mult.commute add.commute)

lemmas state_defs = three_state_def imu_state_def plain_var_def sample_cov_def id_of_def size_of_def
  attached_def

lemmas scalar_defs = scalar_state_def scalar_var_def mat_of_rows_def id_of_def size_of_def attached_def

lemma psd_diag_4_1: "positive_semidefinite (mat_of_rows [[4, 0], [0, 1]])"
proof -
  have "0 \<le> 4 * (v 0 * v 0) + v (Suc 0) * v (Suc 0)" for v :: "nat \<Rightarrow> real"
    by (intro add_nonneg_nonneg mult_nonneg_nonneg zero_le_square) simp
  then show ?thesis
    by (simp add: positive_semidefinite_def symmetric_def quadratic_form_def mat_of_rows_def
        lessThan_Suc eval_nat_numeral less_Suc_eq mult.commute mult.left_commute add.commute)
qed

lemma psd_1: "positive_semidefinite (mat_of_rows [[1]])"
  by (simp add: positive_semidefinite_def symmetric_def quadratic_form_def mat_of_rows_def)

lemma cholesky_exact_example:
  "cholesky_exact example_extern
     (selfadjointView_Upper
        (residual_covariance (scalar_state (mat_of_rows [[4, 0], [0, 1]])) [0, 1]
           (mat_of_rows [[1, 0]]) (mat_of_rows [[1]])))"
  by (simp add: cholesky_exact_def mat_eq_def Let_def residual_covariance_def
      get_marginal_covariance_def example_defs lessThan_Suc eval_nat_numeral)

lemma psd_diag_1_0: "positive_semidefinite (mat_of_rows [[1, 0], [0, 0]])"
  by (simp add: positive_semidefinite_def symmetric_def quadratic_form_def mat_of_rows_def
        lessThan_Suc eval_nat_numeral less_Suc_eq)

lemma psd_zero_2: "positive_semidefinite (mat_of_rows [[0, 0], [0, 0]])"
  by (simp add: positive_semidefinite_def symmetric_def quadratic_form_def mat_of_rows_def
        lessThan_Suc eval_nat_numeral less_Suc_eq)

lemmas double_defs = double_extern_def llt_solve_double_def llt_factor_def map_state_def
  map_mat_def map_var_def zero_double_def one_double_def minus_double_def

lemma singular_update_entries:
  assumes "i < 2" and "j < 2"
  shows "ent (updated_covariance double_extern
                (map_state Finite (scalar_state (mat_of_rows [[1, 0], [0, 0]]))) [0, 1]
                (map_mat Finite (mat_of_rows [[1, 0], [0, 1]]))
                (map_mat Finite (mat_of_rows [[0], [0]]))
                (map_mat Finite (mat_of_rows [[0, 0], [0, 0]]))) i j = NaN"
  using assms
  by (auto simp add: updated_covariance_def kalman_gain_def compute_M_a_def
      residual_covariance_def get_marginal_covariance_def double_defs scalar_defs Let_def
      eval_nat_numeral less_Suc_eq)

lemma singular_update_not_isl:
  "\<not> isl (EKFUpdate double_extern
     (map_state Finite (scalar_state (mat_of_rows [[1, 0], [0, 0]]))) [0, 1]
     (map_mat Finite (mat_of_rows [[1, 0], [0, 1]]))
     (map_mat Finite (mat_of_rows [[0], [0]]))
     (map_mat Finite (mat_of_rows [[0, 0], [0, 0]])))"
proof -
  define s where "s = map_state Finite (scalar_state (mat_of_rows [[1, 0], [0, 0]]))"
  define H where "H = map_mat Finite (mat_of_rows [[1, 0], [0, 1]])"
  define res where "res = map_mat Finite (mat_of_rows [[0], [0]])"
  define R where "R = map_mat Finite (mat_of_rows [[0, 0], [0, 0]])"
  define U where "U = updated_covariance double_extern s [0, 1] H res R"
  have u: "ent U i i = NaN" if "i < 2" for i
    unfolding U_def s_def H_def res_def R_def using that that by (rule singular_update_entries)
  have nU: "nrows U = 2"
    by (simp add: U_def updated_covariance_def Let_def s_def map_state_def map_mat_def scalar_defs)
  have nf: "\<not> found_neg U"
    by (simp add: found_neg_iff nU u)
  have d: "nrows res = nrows R" "nrows H = nrows res" "update_in_range s [0, 1] H R"
    "\<not> do_calib_camera_intrinsics (state_options s)"
    by (simp_all add: update_in_range_def s_def H_def res_def R_def map_state_def map_mat_def
        map_var_def scalar_defs)
  show ?thesis
    using nf d unfolding s_def [symmetric] H_def [symmetric] res_def [symmetric] R_def [symmetric]
      EKFUpdate_def Let_def U_def [symmetric] by simp
qed

lemma singular_update_Cov:
  assumes "i < 2" and "j < 2"
  shows "ent (Cov (projr (EKFUpdate double_extern
     (map_state Finite (scalar_state (mat_of_rows [[1, 0], [0, 0]]))) [0, 1]
     (map_mat Finite (mat_of_rows [[1, 0], [0, 1]]))
     (map_mat Finite (mat_of_rows [[0], [0]]))
     (map_mat Finite (mat_of_rows [[0, 0], [0, 0]]))))) i j = NaN" (is "ent (Cov (projr ?E)) i j = NaN")
proof -
  from singular_update_not_isl obtain s' where s': "?E = Inr s'"
    by (cases ?E) auto
  then have C: "Cov s' = updated_covariance double_extern
     (map_state Finite (scalar_state (mat_of_rows [[1, 0], [0, 0]]))) [0, 1]
     (map_mat Finite (mat_of_rows [[1, 0], [0, 1]]))
     (map_mat Finite (mat_of_rows [[0], [0]]))
     (map_mat Finite (mat_of_rows [[0, 0], [0, 0]]))"
    by (rule EKFUpdate_Cov)
  show ?thesis
    unfolding s' sum.sel C using assms by (rule singular_update_entries)
qed

lemma singular_update_Cov_dims:
  "nrows (Cov (projr (EKFUpdate double_extern
     (map_state Finite (scalar_state (mat_of_rows [[1, 0], [0, 0]]))) [0, 1]
     (map_mat Finite (mat_of_rows [[1, 0], [0, 1]]))
     (map_mat Finite (mat_of_rows [[0], [0]]))
     (map_mat Finite (mat_of_rows [[0, 0], [0, 0]]))))) = 2" (is "nrows (Cov (projr ?E)) = 2")
  "ncols (Cov (projr (EKFUpdate double_extern
     (map_state Finite (scalar_state (mat_of_rows [[1, 0], [0, 0]]))) [0, 1]
     (map_mat Finite (mat_of_rows [[1, 0], [0, 1]]))
     (map_mat Finite (mat_of_rows [[0], [0]]))
     (map_mat Finite (mat_of_rows [[0, 0], [0, 0]]))))) = 2"
proof -
  from singular_update_not_isl obtain s' where s': "?E = Inr s'"
    by (cases ?E) auto
  then have C: "Cov s' = updated_covariance double_extern
     (map_state Finite (scalar_state (mat_of_rows [[1, 0], [0, 0]]))) [0, 1]
     (map_mat Finite (mat_of_rows [[1, 0], [0, 1]]))
     (map_mat Finite (mat_of_rows [[0], [0]]))
     (map_mat Finite (mat_of_rows [[0, 0], [0, 0]]))"
    by (rule EKFUpdate_Cov)
  show "nrows (Cov (projr ?E)) = 2" "ncols (Cov (projr ?E)) = 2"
    unfolding s' sum.sel C
    by (simp_all add: updated_covariance_def Let_def map_state_def map_mat_def scalar_defs)
qed



section \<open>Rejection by the Mahalanobis gate\<close>

text \<open>
  Claim C2.  When the checks at the head of \<^verbatim>\<open>initialize\<close> pass and the statistic
  \<open>chi2\<close> exceeds \<open>chi_2_mult\<close> times the 0.95 quantile for \<open>res.rows()\<close> degrees of
  freedom, \<^verbatim>\<open>initialize\<close> returns false and the state it leaves is the state it was given:
  covariance, variable list, clone map, feature map and every variable object are unchanged,
  and the new variable is not added.
\<close>

theorem initialize_gate_rejection:
  assumes "new_variable \<notin> set (variables s)"
    and "nrows R = ncols R" and "0 < nrows R" and "\<not> noise_violation R"
    and "size_of s new_variable = ncols H_L"
    and "nrows R = nrows H_R" and "ncols H_R = cov_size s H_order"
    and "initialize_chi2 ext s new_variable H_order H_R H_L R res
           > chi_2_mult * chi_squared_quantile ext (nrows res)"
  shows "\<exists>H_R1 H_L1 res1.
           initialize ext s new_variable H_order H_R H_L R res chi_2_mult
             = Inr (False, s, H_R1, H_L1, res1)"
proof -
  obtain H_L1 H_R1 res1 where g: "givens_qr ext H_L H_R res = (H_L1, H_R1, res1)"
    by (cases "givens_qr ext H_L H_R res") auto
  note d = givens_qr_dims [OF g]
  show ?thesis using assms
    by (simp add: initialize_def g d Let_def)
qed

theorem initialize_gate_rejection_witness:
  "\<exists>H_R1 H_L1 res1.
     initialize example_extern (scalar_state (mat_of_rows [[4, 0], [0, 1]])) 2 [0]
       (mat_of_rows [[1], [2]]) (mat_of_rows [[0], [1]]) (mat_of_rows [[1, 0], [0, 1]])
       (mat_of_rows [[30], [4]]) 1
     = Inr (False, scalar_state (mat_of_rows [[4, 0], [0, 1]]), H_R1, H_L1, res1)"
proof (rule initialize_gate_rejection)
  show "initialize_chi2 example_extern (scalar_state (mat_of_rows [[4, 0], [0, 1]])) 2 [0]
     (mat_of_rows [[1], [2]]) (mat_of_rows [[0], [1]]) (mat_of_rows [[1, 0], [0, 1]])
     (mat_of_rows [[30], [4]]) > 1 * chi_squared_quantile example_extern (nrows (mat_of_rows [[30], [4]]))"
    unfolding chi2_example by (simp add: example_defs)
qed (simp_all add: example_defs noise_violation_def eval_nat_numeral)

text \<open>
  Claim C9.  The contents of \<^verbatim>\<open>H_R\<close>, \<^verbatim>\<open>H_L\<close> and \<^verbatim>\<open>res\<close> after a call that returns are
  the rotated ones, whatever the boolean; in particular, when the gate rejects, the state is
  the one given and the caller's three arguments hold the result of the Givens rotations,
  not their original contents.
\<close>

theorem initialize_rotations_persist:
  assumes "givens_qr ext H_L H_R res = (H_L1, H_R1, res1)"
  shows "(\<forall>b s' A B c.
            initialize ext s new_variable H_order H_R H_L R res chi_2_mult = Inr (b, s', A, B, c)
            \<longrightarrow> (A, B, c) = (H_R1, H_L1, res1)) \<and>
         (new_variable \<notin> set (variables s) \<and> nrows R = ncols R \<and> 0 < nrows R \<and>
          \<not> noise_violation R \<and> size_of s new_variable = ncols H_L \<and>
          nrows R = nrows H_R \<and> ncols H_R = cov_size s H_order \<and>
          initialize_chi2 ext s new_variable H_order H_R H_L R res
            > chi_2_mult * chi_squared_quantile ext (nrows res)
          \<longrightarrow> initialize ext s new_variable H_order H_R H_L R res chi_2_mult
                = Inr (False, s, H_R1, H_L1, res1))"
proof
  show "\<forall>b s' A B c.
            initialize ext s new_variable H_order H_R H_L R res chi_2_mult = Inr (b, s', A, B, c)
            \<longrightarrow> (A, B, c) = (H_R1, H_L1, res1)"
    using assms by (auto simp: initialize_def Let_def split: if_splits sum.splits)
next
  show "new_variable \<notin> set (variables s) \<and> nrows R = ncols R \<and> 0 < nrows R \<and>
          \<not> noise_violation R \<and> size_of s new_variable = ncols H_L \<and>
          nrows R = nrows H_R \<and> ncols H_R = cov_size s H_order \<and>
          initialize_chi2 ext s new_variable H_order H_R H_L R res
            > chi_2_mult * chi_squared_quantile ext (nrows res)
          \<longrightarrow> initialize ext s new_variable H_order H_R H_L R res chi_2_mult
                = Inr (False, s, H_R1, H_L1, res1)"
  proof (intro impI, elim conjE)
    assume "new_variable \<notin> set (variables s)" "nrows R = ncols R" "0 < nrows R"
      "\<not> noise_violation R" "size_of s new_variable = ncols H_L" "nrows R = nrows H_R"
      "ncols H_R = cov_size s H_order"
      "initialize_chi2 ext s new_variable H_order H_R H_L R res
         > chi_2_mult * chi_squared_quantile ext (nrows res)"
    then show "initialize ext s new_variable H_order H_R H_L R res chi_2_mult
                = Inr (False, s, H_R1, H_L1, res1)"
      using assms givens_qr_dims [OF assms] by (simp add: initialize_def Let_def)
  qed
qed

theorem initialize_rotations_persist_witness:
  "initialize example_extern (scalar_state (mat_of_rows [[4, 0], [0, 1]])) 2 [0]
       (mat_of_rows [[1], [2]]) (mat_of_rows [[0], [1]]) (mat_of_rows [[1, 0], [0, 1]])
       (mat_of_rows [[30], [4]]) 1
     = Inr (False, scalar_state (mat_of_rows [[4, 0], [0, 1]]),
            applyOnTheLeft_adjoint (0, - 1) (mat_of_rows [[1], [2]]) 0 0 1,
            applyOnTheLeft_adjoint (0, - 1) (mat_of_rows [[0], [1]]) 0 0 1,
            applyOnTheLeft_adjoint (0, - 1) (mat_of_rows [[30], [4]]) 0 0 1) \<and>
   ent (applyOnTheLeft_adjoint (0, - 1) (mat_of_rows [[30], [4]]) 0 0 1) 0 0 = 4 \<and>
   ent (applyOnTheLeft_adjoint (0, - 1) (mat_of_rows [[30], [4]]) 0 0 1) 1 0 = - 30"
proof -
  have g: "givens_qr example_extern (mat_of_rows [[0], [1]]) (mat_of_rows [[1], [2]])
             (mat_of_rows [[30], [4]])
           = (applyOnTheLeft_adjoint (0, - 1) (mat_of_rows [[0], [1]]) 0 0 1,
              applyOnTheLeft_adjoint (0, - 1) (mat_of_rows [[1], [2]]) 0 0 1,
              applyOnTheLeft_adjoint (0, - 1) (mat_of_rows [[30], [4]]) 0 0 1)"
    by (simp add: givens_qr_def givens_step_def example_defs eval_nat_numeral Let_def)
  have c: "initialize_chi2 example_extern (scalar_state (mat_of_rows [[4, 0], [0, 1]])) 2 [0]
     (mat_of_rows [[1], [2]]) (mat_of_rows [[0], [1]]) (mat_of_rows [[1, 0], [0, 1]])
     (mat_of_rows [[30], [4]]) > 1 * chi_squared_quantile example_extern (nrows (mat_of_rows [[30], [4]]))"
    unfolding chi2_example by (simp add: example_defs)
  have p: "2 \<notin> set (variables (scalar_state (mat_of_rows [[4, 0], [0, 1]])))"
    "nrows (mat_of_rows [[1, 0], [0, 1]]) = ncols (mat_of_rows [[1, 0], [0, 1]])"
    "0 < nrows (mat_of_rows [[1, 0], [0, 1]])"
    "\<not> noise_violation (mat_of_rows [[1, 0], [0, 1]])"
    "size_of (scalar_state (mat_of_rows [[4, 0], [0, 1]])) 2 = ncols (mat_of_rows [[0], [1]])"
    "nrows (mat_of_rows [[1, 0], [0, 1]]) = nrows (mat_of_rows [[1], [2]])"
    "ncols (mat_of_rows [[1], [2]]) = cov_size (scalar_state (mat_of_rows [[4, 0], [0, 1]])) [0]"
    by (simp_all add: example_defs noise_violation_def eval_nat_numeral)
  from initialize_rotations_persist [OF g, where s = "scalar_state (mat_of_rows [[4, 0], [0, 1]])"
      and new_variable = 2 and R = "mat_of_rows [[1, 0], [0, 1]]" and H_order = "[0]"
      and chi_2_mult = 1] p c
  have "initialize example_extern (scalar_state (mat_of_rows [[4, 0], [0, 1]])) 2 [0]
       (mat_of_rows [[1], [2]]) (mat_of_rows [[0], [1]]) (mat_of_rows [[1, 0], [0, 1]])
       (mat_of_rows [[30], [4]]) 1
     = Inr (False, scalar_state (mat_of_rows [[4, 0], [0, 1]]),
            applyOnTheLeft_adjoint (0, - 1) (mat_of_rows [[1], [2]]) 0 0 1,
            applyOnTheLeft_adjoint (0, - 1) (mat_of_rows [[0], [1]]) 0 0 1,
            applyOnTheLeft_adjoint (0, - 1) (mat_of_rows [[30], [4]]) 0 0 1)"
    by blast
  moreover have
    "ent (applyOnTheLeft_adjoint (0, - 1) (mat_of_rows [[30], [4]]) 0 0 1) 0 0 = (4::real)"
    "ent (applyOnTheLeft_adjoint (0, - 1) (mat_of_rows [[30], [4]]) 0 0 1) 1 0 = - (30::real)"
    by (simp_all add: applyOnTheLeft_adjoint_def mat_of_rows_def Let_def)
  ultimately show ?thesis by blast
qed

section \<open>Failure of the Cholesky factorisation in the update\<close>

text \<open>
  Claim C8, as stated, at a concrete input.  The state has covariance
  \<open>[[1, 2], [2, 1]]\<close> over two scalar variables, \<open>H = [1, -1]\<close>, \<open>R = [1]\<close>, so that
  \<open>S = [-1]\<close> is not positive definite and the factorisation fails; \<^verbatim>\<open>EKFUpdate\<close> does
  not abort.
\<close>

theorem EKFUpdate_failed_factorization_continues:
  "ent (selfadjointView_Upper
          (residual_covariance (scalar_state (mat_of_rows [[1, 2], [2, 1]])) [0, 1]
             (mat_of_rows [[1, - 1]]) (mat_of_rows [[1]]))) 0 0 = - 1 \<and>
   \<not> llt_info example_extern
        (selfadjointView_Upper
           (residual_covariance (scalar_state (mat_of_rows [[1, 2], [2, 1]])) [0, 1]
              (mat_of_rows [[1, - 1]]) (mat_of_rows [[1]]))) \<and>
   \<not> isl (EKFUpdate example_extern (scalar_state (mat_of_rows [[1, 2], [2, 1]])) [0, 1]
            (mat_of_rows [[1, - 1]]) (mat_of_rows [[3]]) (mat_of_rows [[1]]))"
  by (simp add: update_defs example_defs found_neg_iff Let_def lessThan_Suc eval_nat_numeral less_Suc_eq)

text \<open>
  Claim C8, amended.  \<^verbatim>\<open>EKFUpdate\<close> never consults the status of the factorisation:
  whatever the solve returns goes into the gain and the covariance.  In every arithmetic
  and for every behaviour of the solve, the call aborts in exactly three cases, none of
  which mentions the status: an assertion fails (the two of the source on the rows of
  \<open>res\<close>, \<open>R\<close> and \<open>H\<close>, or one of Eigen's on the blocks and shapes); or the
  covariance computed from what the solve returned has a negative diagonal entry; or,
  with intrinsic calibration, some listed camera has no camera object.  When the call
  returns, the covariance of the state is the one computed from what the solve returned.
\<close>

theorem EKFUpdate_abort_conditions:
  "(EKFUpdate ext s H_order H res R = Inl Assertion \<longleftrightarrow>
      nrows res \<noteq> nrows R \<or> nrows H \<noteq> nrows res \<or> \<not> update_in_range s H_order H R) \<and>
   (EKFUpdate ext s H_order H res R = Inl NumericalViolation \<longleftrightarrow>
      nrows res = nrows R \<and> nrows H = nrows res \<and> update_in_range s H_order H R \<and>
      found_neg (updated_covariance ext s H_order H res R)) \<and>
   (EKFUpdate ext s H_order H res R = Inl OutOfRange \<longleftrightarrow>
      nrows res = nrows R \<and> nrows H = nrows res \<and> update_in_range s H_order H R \<and>
      \<not> found_neg (updated_covariance ext s H_order H res R) \<and>
      do_calib_camera_intrinsics (state_options s) \<and>
      list_ex (\<lambda>c. cam_intrinsics_cameras s (fst c) = None) (cam_intrinsics s)) \<and>
   EKFUpdate ext s H_order H res R \<noteq> Inl ContractViolation \<and>
   (\<not> isl (EKFUpdate ext s H_order H res R) \<longrightarrow>
      Cov (projr (EKFUpdate ext s H_order H res R)) = updated_covariance ext s H_order H res R)"
proof -
  define C where "C = updated_covariance ext s H_order H res R"
  define h where "h = update_variables ext (mult (kalman_gain ext s H_order H res R) res)
                        (variables s) (heap s)"
  define cams where "cams = update_cameras h (cam_intrinsics s) (cam_intrinsics_cameras s)"
  define r where "r = EKFUpdate ext s H_order H res R"
  define A where "A \<longleftrightarrow> nrows res \<noteq> nrows R \<or> nrows H \<noteq> nrows res \<or> \<not> update_in_range s H_order H R"
  define N where "N = found_neg C"
  define I where "I = do_calib_camera_intrinsics (state_options s)"
  define M where "M = list_ex (\<lambda>c. cam_intrinsics_cameras s (fst c) = None) (cam_intrinsics s)"
  have E: "r =
     (if A then Inl Assertion
      else if N then Inl NumericalViolation
      else if I
        then (case cams of Inl e \<Rightarrow> Inl e
              | Inr cs \<Rightarrow> Inr (s\<lparr>Cov := C, heap := h, cam_intrinsics_cameras := cs\<rparr>))
        else Inr (s\<lparr>Cov := C, heap := h\<rparr>))"
    unfolding r_def EKFUpdate_def Let_def C_def h_def cams_def A_def N_def I_def
    by (simp only: de_Morgan_disj if_not_P if_P split: if_splits) auto
  have cam: "cams = Inl e \<longleftrightarrow> e = OutOfRange \<and> M" for e
    unfolding cams_def M_def by (rule update_cameras_Inl_iff)
  have goal: "(r = Inl Assertion \<longleftrightarrow> A) \<and> (r = Inl NumericalViolation \<longleftrightarrow> \<not> A \<and> N) \<and>
     (r = Inl OutOfRange \<longleftrightarrow> \<not> A \<and> \<not> N \<and> I \<and> M) \<and> r \<noteq> Inl ContractViolation \<and>
     (\<not> isl r \<longrightarrow> Cov (projr r) = C)"
  proof (cases cams)
    case (Inl e)
    with cam [of e] have "e = OutOfRange" "M" by simp_all
    with Inl show ?thesis unfolding E by simp
  next
    case (Inr cs)
    with cam [of OutOfRange] have "\<not> M" by simp
    with Inr show ?thesis unfolding E by simp
  qed
  from goal show ?thesis
    unfolding r_def A_def N_def I_def M_def C_def by blast
qed

theorem EKFUpdate_abort_conditions_witness:
  "\<not> isl (EKFUpdate example_extern (scalar_state (mat_of_rows [[1, 2], [2, 1]])) [0, 1]
            (mat_of_rows [[1, - 1]]) (mat_of_rows [[3]]) (mat_of_rows [[1]])) \<and>
   Cov (projr (EKFUpdate example_extern (scalar_state (mat_of_rows [[1, 2], [2, 1]])) [0, 1]
            (mat_of_rows [[1, - 1]]) (mat_of_rows [[3]]) (mat_of_rows [[1]])))
     = updated_covariance example_extern (scalar_state (mat_of_rows [[1, 2], [2, 1]])) [0, 1]
         (mat_of_rows [[1, - 1]]) (mat_of_rows [[3]]) (mat_of_rows [[1]])"
proof -
  have r: "update_in_range (scalar_state (mat_of_rows [[1, 2], [2, 1]])) [0, 1]
             (mat_of_rows [[1, - 1]]) (mat_of_rows [[1]])"
    "nrows (mat_of_rows [[3]]) = nrows (mat_of_rows [[1]])"
    "nrows (mat_of_rows [[1, - 1]]) = nrows (mat_of_rows [[3]])"
    "\<not> do_calib_camera_intrinsics (state_options (scalar_state (mat_of_rows [[1, 2], [2, 1]])))"
    by (simp_all add: update_in_range_def scalar_defs)
  have n: "\<not> found_neg (updated_covariance example_extern
             (scalar_state (mat_of_rows [[1, 2], [2, 1]])) [0, 1]
             (mat_of_rows [[1, - 1]]) (mat_of_rows [[3]]) (mat_of_rows [[1]]))"
    by (simp add: update_defs example_defs found_neg_iff Let_def lessThan_Suc eval_nat_numeral
        less_Suc_eq)
  note t = EKFUpdate_abort_conditions [of example_extern
      "scalar_state (mat_of_rows [[1, 2], [2, 1]])" "[0, 1]" "mat_of_rows [[1, - 1]]"
      "mat_of_rows [[3]]" "mat_of_rows [[1]]"]
  have e: "EKFUpdate example_extern (scalar_state (mat_of_rows [[1, 2], [2, 1]])) [0, 1]
            (mat_of_rows [[1, - 1]]) (mat_of_rows [[3]]) (mat_of_rows [[1]]) \<noteq> Inl x" for x
    using t r n by (cases x) blast+
  then have "\<not> isl (EKFUpdate example_extern (scalar_state (mat_of_rows [[1, 2], [2, 1]])) [0, 1]
            (mat_of_rows [[1, - 1]]) (mat_of_rows [[3]]) (mat_of_rows [[1]]))"
    by (auto simp: isl_def)
  with t show ?thesis by blast
qed

section \<open>Preconditions of the two initialisation routines\<close>

text \<open>
  Claim C10.  \<^verbatim>\<open>initialize_invertible\<close>, like \<^verbatim>\<open>initialize\<close>, aborts when the new
  variable is already among the state's variables, or when some diagonal entry of \<open>R\<close>
  differs from \<open>R(0,0)\<close> or some off-diagonal entry of \<open>R\<close> is not zero.
\<close>

theorem initialization_preconditions_fatal:
  assumes "new_variable \<in> set (variables s) \<or>
           (\<exists>r<nrows R. \<exists>c<ncols R. (r = c \<and> ent R 0 0 \<noteq> ent R r c) \<or> (r \<noteq> c \<and> ent R r c \<noteq> 0))"
  shows "isl (initialize_invertible ext s new_variable H_order H_R H_L R res) \<and>
         isl (initialize ext s new_variable H_order H_R H_L R res chi_2_mult)"
  using assms unfolding noise_violation_iff [symmetric]
  by (auto simp: initialize_invertible_def initialize_def)

theorem initialization_preconditions_fatal_witness:
  "isl (initialize_invertible example_extern (scalar_state (mat_of_rows [[4, 0], [0, 1]])) 2 [0]
          (mat_of_rows [[1], [2]]) (mat_of_rows [[0], [1]]) (mat_of_rows [[1, 0], [0, 2]])
          (mat_of_rows [[30], [4]])) \<and>
   isl (initialize example_extern (scalar_state (mat_of_rows [[4, 0], [0, 1]])) 2 [0]
          (mat_of_rows [[1], [2]]) (mat_of_rows [[0], [1]]) (mat_of_rows [[1, 0], [0, 2]])
          (mat_of_rows [[30], [4]]) 1)"
proof (rule initialization_preconditions_fatal)
  have "ent (mat_of_rows [[1, 0], [0, 2]]) 0 0 \<noteq> ent (mat_of_rows [[1, 0], [0, 2 :: real]]) 1 1"
    by (simp add: mat_of_rows_def)
  moreover have "(1::nat) < nrows (mat_of_rows [[1, 0], [0, 2]])" "(1::nat) < ncols (mat_of_rows [[1, 0], [0, 2]])"
    by (simp_all add: mat_of_rows_def)
  ultimately show "2 \<in> set (variables (scalar_state (mat_of_rows [[4, 0], [0, 1]]))) \<or>
    (\<exists>r<nrows (mat_of_rows [[1, 0], [0, 2]]). \<exists>c<ncols (mat_of_rows [[1, 0], [0, 2]]).
        (r = c \<and> ent (mat_of_rows [[1, 0], [0, 2]]) 0 0 \<noteq> ent (mat_of_rows [[1, 0], [0, 2]]) r c) \<or>
        (r \<noteq> c \<and> ent (mat_of_rows [[1, 0], [0, 2]]) r c \<noteq> 0))"
    by blast
qed

section \<open>Marginalisation deletes the block of the variable\<close>

text \<open>
  Claim C3.  For a state whose covariance is symmetric of side \<open>N\<close> and a top-level
  variable \<open>m\<close> of the variable list with id \<open>id_m \<ge> 0\<close> and size \<open>s_m\<close> inside the
  covariance, \<^verbatim>\<open>marginalize\<close> returns; the new covariance has side \<open>N - s_m\<close> and is the
  old one with the rows and columns \<open>[id_m, id_m + s_m)\<close> deleted; \<open>m\<close> is removed from the
  variable list; every remaining variable whose id was greater than \<open>id_m\<close> has its id
  decreased by \<open>s_m\<close> and the others keep theirs; the id of \<open>m\<close> is \<open>-1\<close>.
\<close>

theorem marginalize_deletes_block:
  assumes "symmetric (Cov s)" and "marg \<in> set (variables s)" and "distinct (variables s)"
    and "0 \<le> type_id (heap s marg)"
    and "nat (type_id (heap s marg)) + type_size (heap s marg) \<le> nrows (Cov s)"
  shows "\<exists>s'. marginalize s marg = Inr s' \<and>
           mat_eq (Cov s')
             (delete_rows_cols (Cov s) (nat (type_id (heap s marg))) (type_size (heap s marg))) \<and>
           variables s' = filter (\<lambda>v. v \<noteq> marg) (variables s) \<and>
           (\<forall>v\<in>set (variables s').
              type_id (heap s' v) =
                (if type_id (heap s v) > type_id (heap s marg)
                 then type_id (heap s v) - int (type_size (heap s marg))
                 else type_id (heap s v))) \<and>
           type_id (heap s' marg) = - 1"
proof -
  define a where "a = nat (type_id (heap s marg))"
  define k where "k = type_size (heap s marg)"
  obtain h rem where r: "remaining_loop marg (type_id (heap s marg)) (int k) (variables s) (heap s) [] = (h, rem)"
    by (cases "remaining_loop marg (type_id (heap s marg)) (int k) (variables s) (heap s) []") auto
  have rem: "rem = filter (\<lambda>v. v \<noteq> marg) (variables s)"
    using remaining_loop_vars [of marg "type_id (heap s marg)" "int k" "variables s" "heap s" "[]"] r by simp
  have h: "h v = (if v \<in> set (variables s) \<and> v \<noteq> marg \<and> type_id (heap s v) > type_id (heap s marg)
      then (heap s v)\<lparr>type_id := type_id (heap s v) - int k\<rparr> else heap s v)" for v
    using remaining_loop_heap [OF assms(3), of marg "type_id (heap s marg)" "int k" "heap s" "[]" v] r by simp
  have x2: "nat (int (nrows (Cov s)) - type_id (heap s marg) - int k) = nrows (Cov s) - a - k"
    using assms(4) by (simp add: a_def)
  have ak: "a + k \<le> nrows (Cov s)" using assms(5) by (simp add: a_def k_def)
  show ?thesis
    using assms(2) marginalize_Cov [OF assms(1) ak]
    by (simp add: marginalize_def Let_def r x2 k_def [symmetric] a_def [symmetric] rem h set_local_id_def)
qed

theorem marginalize_deletes_block_witness:
  "\<exists>s'. marginalize (three_state 3 (sample_cov 9)) 1 = Inr s' \<and>
        mat_eq (Cov s') (delete_rows_cols (sample_cov 9) 3 3) \<and>
        variables s' = [0, 2] \<and>
        type_id (heap s' 0) = 0 \<and> type_id (heap s' 2) = 3 \<and> type_id (heap s' 1) = - 1"
proof -
  have "symmetric (Cov (three_state 3 (sample_cov 9)))"
    by (simp add: three_state_def sample_cov_symmetric)
  moreover have "1 \<in> set (variables (three_state 3 (sample_cov 9)))"
    "distinct (variables (three_state 3 (sample_cov 9)))"
    "0 \<le> type_id (heap (three_state 3 (sample_cov 9)) 1)"
    "nat (type_id (heap (three_state 3 (sample_cov 9)) 1)) + type_size (heap (three_state 3 (sample_cov 9)) 1)
       \<le> nrows (Cov (three_state 3 (sample_cov 9)))"
    by (simp_all add: state_defs)
  ultimately obtain s' where s': "marginalize (three_state 3 (sample_cov 9)) 1 = Inr s'"
    "mat_eq (Cov s')
       (delete_rows_cols (Cov (three_state 3 (sample_cov 9)))
          (nat (type_id (heap (three_state 3 (sample_cov 9)) 1)))
          (type_size (heap (three_state 3 (sample_cov 9)) 1)))"
    "variables s' = filter (\<lambda>v. v \<noteq> 1) (variables (three_state 3 (sample_cov 9)))"
    "\<forall>v\<in>set (variables s').
        type_id (heap s' v) =
          (if type_id (heap (three_state 3 (sample_cov 9)) v) > type_id (heap (three_state 3 (sample_cov 9)) 1)
           then type_id (heap (three_state 3 (sample_cov 9)) v) - int (type_size (heap (three_state 3 (sample_cov 9)) 1))
           else type_id (heap (three_state 3 (sample_cov 9)) v))"
    "type_id (heap s' 1) = - 1"
    using marginalize_deletes_block [of "three_state 3 (sample_cov 9)" 1] by blast
  from s'(3) have v: "variables s' = [0, 2]" by (simp add: state_defs)
  from s'(4) v have "type_id (heap s' 0) = 0" "type_id (heap s' 2) = 3"
    by (simp_all add: state_defs)
  moreover from s'(2) have "mat_eq (Cov s') (delete_rows_cols (sample_cov 9) 3 3)"
    by (simp add: three_state_def plain_var_def)
  ultimately show ?thesis using s'(1,5) v by blast
qed

section \<open>Cloning appends a copy\<close>

text \<open>
  Claim C5.  For a variable \<open>v\<close> that is in the variable list or is a sub-variable of a
  listed variable, with its range inside the square covariance of side \<open>N\<close>,
  \<^verbatim>\<open>clone\<close> returns a variable \<open>v'\<close>: the covariance has side \<open>N + v.size\<close> and keeps
  every entry it had; \<open>v'\<close> is appended to the variable list with id \<open>N\<close>, the size and
  the value of \<open>v\<close>; \<open>v\<close> is unchanged; and the blocks of the covariance at
  \<open>(v, v)\<close>, \<open>(v', v')\<close> and \<open>(v, v')\<close> are equal.
\<close>

theorem clone_appends_copy:
  assumes "v \<in> set (variables s) \<or> (\<exists>x\<in>set (variables s). v \<in> set (subvariables (heap s x)))"
    and "nrows (Cov s) = ncols (Cov s)"
    and "0 \<le> type_id (heap s v)"
    and "nat (type_id (heap s v)) + type_size (heap s v) \<le> nrows (Cov s)"
    and "v < next_ref s"
  shows "\<exists>s' v'. clone s v = Inr (s', v') \<and>
           nrows (Cov s') = nrows (Cov s) + type_size (heap s v) \<and>
           ncols (Cov s') = nrows (Cov s) + type_size (heap s v) \<and>
           (\<forall>i\<in>{..<nrows (Cov s)}. \<forall>j\<in>{..<nrows (Cov s)}. ent (Cov s') i j = ent (Cov s) i j) \<and>
           variables s' = variables s @ [v'] \<and>
           heap s' v = heap s v \<and>
           type_id (heap s' v') = int (nrows (Cov s)) \<and>
           type_size (heap s' v') = type_size (heap s v) \<and>
           type_value (heap s' v') = type_value (heap s v) \<and>
           mat_eq (block (Cov s') (id_of s' v) (id_of s' v) (size_of s' v) (size_of s' v))
                  (block (Cov s') (id_of s' v') (id_of s' v') (size_of s' v') (size_of s' v')) \<and>
           mat_eq (block (Cov s') (id_of s' v) (id_of s' v) (size_of s' v) (size_of s' v))
                  (block (Cov s') (id_of s' v) (id_of s' v') (size_of s' v) (size_of s' v'))"
  using assms
  by (auto simp: clone_def find_type_check_iff Let_def set_local_id_def type_clone_def
      id_of_def size_of_def mat_eq_def cloned_covariance_ent)

theorem clone_appends_copy_witness:
  "\<exists>s' v'. clone (imu_state (sample_cov 16)) 1 = Inr (s', v') \<and>
     nrows (Cov s') = 22 \<and> ncols (Cov s') = 22 \<and>
     (\<forall>i\<in>{..<16}. \<forall>j\<in>{..<16}. ent (Cov s') i j = ent (sample_cov 16) i j) \<and>
     variables s' = [0, 7, v'] \<and>
     type_id (heap s' v') = 16 \<and> type_size (heap s' v') = 6 \<and>
     mat_eq (block (Cov s') (id_of s' 1) (id_of s' 1) (size_of s' 1) (size_of s' 1))
            (block (Cov s') (id_of s' v') (id_of s' v') (size_of s' v') (size_of s' v')) \<and>
     mat_eq (block (Cov s') (id_of s' 1) (id_of s' 1) (size_of s' 1) (size_of s' 1))
            (block (Cov s') (id_of s' 1) (id_of s' v') (size_of s' 1) (size_of s' v'))"
proof -
  have "1 \<in> set (variables (imu_state (sample_cov 16))) \<or>
        (\<exists>x\<in>set (variables (imu_state (sample_cov 16))). 1 \<in> set (subvariables (heap (imu_state (sample_cov 16)) x)))"
    "nrows (Cov (imu_state (sample_cov 16))) = ncols (Cov (imu_state (sample_cov 16)))"
    "0 \<le> type_id (heap (imu_state (sample_cov 16)) 1)"
    "nat (type_id (heap (imu_state (sample_cov 16)) 1)) + type_size (heap (imu_state (sample_cov 16)) 1)
       \<le> nrows (Cov (imu_state (sample_cov 16)))"
    "1 < next_ref (imu_state (sample_cov 16))"
    by (simp_all add: state_defs)
  from clone_appends_copy [OF this] show ?thesis
    by (simp add: imu_state_def plain_var_def sample_cov_def) blast
qed

section \<open>Initial covariance and marginal covariance\<close>

text \<open>
  Claim C6.  For a list of attached variables with pairwise disjoint ranges and a symmetric
  matrix of the total size of the list, \<^verbatim>\<open>set_initial_covariance\<close> followed by
  \<^verbatim>\<open>get_marginal_covariance\<close> over the same list returns the matrix.  That
  \<^verbatim>\<open>get_marginal_covariance\<close> leaves the state as it is shows in its type: it maps a
  state and a list to a matrix, as the source only reads \<^verbatim>\<open>state->_Cov\<close> and the ids
  and sizes.
\<close>

theorem set_initial_then_marginal_roundtrip:
  assumes "list_all (attached s) order" and "disjoint_ranges s order"
    and "symmetric covariance" and "nrows covariance = cov_size s order"
  shows "mat_eq (get_marginal_covariance (set_initial_covariance s covariance order) order) covariance"
proof -
  let ?O = "initial_outer s covariance order order 0 (Cov s)"
  have w: "ent ?O (src_idx s order r) (src_idx s order c) = ent covariance r c"
    if "r < cov_size s order" "c < cov_size s order" for r c
    using initial_outer_written [OF assms(2) assms(2) that, of covariance 0 "Cov s"] by simp
  have sym: "ent covariance c r = ent covariance r c"
    if "r < cov_size s order" "c < cov_size s order" for r c
    using assms(3,4) that by (simp add: symmetric_def)
  have "ent (get_marginal_covariance (set_initial_covariance s covariance order) order) r c = ent covariance r c"
    if "r < cov_size s order" "c < cov_size s order" for r c
    using that w [OF that] w [OF that(2) that(1)] sym [OF that]
    by (simp add: get_marginal_covariance_ent set_initial_covariance_def)
  then show ?thesis
    using assms(3,4) by (simp add: mat_eq_def symmetric_def set_initial_covariance_def)
qed

theorem set_initial_then_marginal_roundtrip_witness:
  "mat_eq
     (get_marginal_covariance
        (set_initial_covariance (scalar_state (mat_of_rows [[4, 0], [0, 1]]))
           (mat_of_rows [[5, 2], [2, 7]]) [1, 0])
        [1, 0])
     (mat_of_rows [[5, 2], [2, 7]])"
proof (rule set_initial_then_marginal_roundtrip)
  show "symmetric (mat_of_rows [[5, 2], [2, 7]])"
    by (simp add: symmetric_def mat_of_rows_def lessThan_Suc eval_nat_numeral)
qed (simp_all add: scalar_defs)

section \<open>Propagation with the identity\<close>

text \<open>
  Claim C7.  For a state with symmetric covariance and a non-empty contiguous list of
  attached variables, \<^verbatim>\<open>EKFPropagation\<close> with that list as \<^verbatim>\<open>order_NEW\<close> and as
  \<^verbatim>\<open>order_OLD\<close>, the identity as \<open>\<Phi>\<close> and zero as \<open>Q\<close> returns the state it was
  given, unless the covariance already has a negative diagonal entry, in which case the
  closing check exits.
\<close>

theorem propagation_identity_unchanged:
  fixes s :: "real state"
  assumes "order \<noteq> []" and "contiguous s order" and "list_all (attached s) order"
    and "symmetric (Cov s)"
  shows "EKFPropagation s order order
           (MatrixXd_Identity (cov_size s order) (cov_size s order))
           (MatrixXd_Zero (cov_size s order) (cov_size s order))
         = (if found_neg (Cov s) then Inl NumericalViolation else Inr s)"
proof -
  define m where "m = cov_size s order"
  define b where "b = id_of s (hd order)"
  define N where "N = nrows (Cov s)"
  define Phi :: "real mat" where "Phi = MatrixXd_Identity m m"
  define CP where "CP = Cov_PhiT_loop s Phi (zip order (positions s order 0)) (MatrixXd_Zero N (nrows Phi))"
  define PCP where "PCP = Phi_Cov_PhiT_loop s Phi CP (zip order (positions s order 0))
                             (selfadjointView_Upper (MatrixXd_Zero m m))"
  define C3 where "C3 = block_assign (block_assign (block_assign (Cov s) b 0 m N (transpose_mat CP))
                          0 b N m CP) b b m m PCP"
  have bm: "b + m \<le> N" and sq: "ncols (Cov s) = N"
    using contiguous_end [OF assms(2,3,1)] assms(4) by (simp_all add: b_def m_def N_def symmetric_def)
  have sig: "src_idx s order c = b + c" if "c < m" for c
    using src_idx_contiguous [OF assms(2,3)] that by (simp add: m_def b_def)
  have CP: "ent CP x j = (if j < m then ent (Cov s) x (b + j) else 0)" for x j
  proof -
    have "ent CP x j = (\<Sum>c<m. ent (Cov s) x (src_idx s order c) * (if j = c then 1 else 0))"
      by (simp add: CP_def Cov_PhiT_loop_ent Phi_def m_def)
    also have "\<dots> = (\<Sum>c<m. ent (Cov s) x (b + c) * (if j = c then 1 else 0))"
      by (rule sum.cong) (simp_all add: sig)
    also have "\<dots> = (if j < m then ent (Cov s) x (b + j) else 0)"
      by (rule sum_delta_right)
    finally show ?thesis .
  qed
  have PCP: "ent PCP i j = (if i < m \<and> j < m then ent (Cov s) (b + i) (b + j) else 0)" for i j
  proof -
    have "ent PCP i j = (\<Sum>c<m. (if i = c then 1 else 0) * ent CP (src_idx s order c) j)"
      by (simp add: PCP_def Phi_Cov_PhiT_loop_ent Phi_def m_def)
    also have "\<dots> = (\<Sum>c<m. (if i = c then 1 else 0) * ent CP (b + c) j)"
      by (rule sum.cong) (simp_all add: sig)
    also have "\<dots> = (if i < m then ent CP (b + i) j else 0)"
      by (rule sum_delta_left)
    finally show ?thesis by (simp add: CP)
  qed
  have sym: "ent (Cov s) x y = ent (Cov s) y x" if "x < N" "y < N" for x y
    using assms(4) that by (simp add: symmetric_def N_def)
  have C3e: "ent C3 x y =
      (if b \<le> x \<and> x < b + m \<and> b \<le> y \<and> y < b + m then ent PCP (x - b) (y - b)
       else if x < N \<and> b \<le> y \<and> y < b + m then ent CP x (y - b)
       else if b \<le> x \<and> x < b + m \<and> y < N then ent CP y (x - b)
       else ent (Cov s) x y)" for x y
    by (simp add: C3_def)
  have "ent C3 x y = ent (Cov s) x y" for x y
  proof -
    consider (both) "b \<le> x" "x < b + m" "b \<le> y" "y < b + m"
      | (col) "\<not> (b \<le> x \<and> x < b + m)" "b \<le> y" "y < b + m" "x < N"
      | (row) "b \<le> x" "x < b + m" "\<not> (b \<le> y \<and> y < b + m)" "y < N"
      | (none) "\<not> (b \<le> x \<and> x < b + m \<and> y < N)" "\<not> (b \<le> y \<and> y < b + m \<and> x < N)"
      using bm by linarith
    then show ?thesis
    proof cases
      case both
      then have "x - b < m" "y - b < m" by linarith+
      with both show ?thesis by (simp add: C3e PCP)
    next
      case col
      then have yb: "y - b < m" by linarith
      from col(1) consider "x < b" | "b + m \<le> x" by linarith
      then show ?thesis
      proof cases
        case 1
        with col yb show ?thesis by (simp add: C3e CP)
      next
        case 2
        with col yb show ?thesis by (simp add: C3e CP)
      qed
    next
      case row
      then have xb: "x - b < m" "x < N" using bm by linarith+
      from row(3) consider "y < b" | "b + m \<le> y" by linarith
      then have "ent C3 x y = ent (Cov s) y x"
      proof cases
        case 1
        with row xb show ?thesis by (simp add: C3e CP)
      next
        case 2
        with row xb show ?thesis by (simp add: C3e CP)
      qed
      with sym [OF \<open>x < N\<close> \<open>y < N\<close>] show ?thesis by simp
    next
      case none
      then have "\<not> (b \<le> x \<and> x < b + m \<and> b \<le> y \<and> y < b + m)"
        "\<not> (x < N \<and> b \<le> y \<and> y < b + m)" "\<not> (b \<le> x \<and> x < b + m \<and> y < N)"
        using bm by linarith+
      then show ?thesis by (simp only: C3e if_False)
    qed
  qed
  then have "ent C3 = ent (Cov s)" by (intro ext)
  then have C3: "C3 = Cov s" by (simp add: C3_def block_assign_def)
  have pc: "propagated_covariance s order order Phi (MatrixXd_Zero m m) = C3"
    unfolding propagated_covariance_def Let_def C3_def PCP_def CP_def b_def N_def
    by (simp add: Phi_def)
  have e: "EKFPropagation s order order Phi (MatrixXd_Zero m m)
             = (if found_neg C3 then Inl NumericalViolation else Inr (s\<lparr>Cov := C3\<rparr>))"
    unfolding EKFPropagation_def pc Let_def
    using assms(1,2) by (simp add: Phi_def m_def)
  show ?thesis using e by (simp add: C3 Phi_def m_def)
qed

theorem propagation_identity_unchanged_witness:
  "EKFPropagation (three_state 1 (sample_cov 3)) [0, 1, 2] [0, 1, 2]
     (MatrixXd_Identity 3 3) (MatrixXd_Zero 3 3) = Inr (three_state 1 (sample_cov 3))"
proof -
  have "[0, 1, 2] \<noteq> ([] :: ref list)"
    "contiguous (three_state 1 (sample_cov 3)) [0, 1, 2]"
    "list_all (attached (three_state 1 (sample_cov 3))) [0, 1, 2]"
    by (simp_all add: state_defs)
  moreover have "symmetric (Cov (three_state 1 (sample_cov 3)))"
    by (simp add: three_state_def sample_cov_symmetric)
  moreover have "cov_size (three_state 1 (sample_cov 3)) [0, 1, 2] = 3"
    by (simp add: state_defs)
  moreover have "\<not> found_neg (Cov (three_state 1 (sample_cov 3)))"
    by (simp add: found_neg_iff three_state_def sample_cov_def not_less)
  ultimately show ?thesis
    using propagation_identity_unchanged [of "[0, 1, 2]" "three_state 1 (sample_cov 3)"]
    by simp
qed

section \<open>Symmetry of the covariance\<close>




section \<open>The update and the trace\<close>

text \<open>
  Claim C4, as stated, at a concrete input, in the arithmetic of \<^verbatim>\<open>double\<close>.  The
  covariance \<open>[[1, 0], [0, 0]]\<close> and the noise \<open>R = 0\<close> are positive semidefinite and
  \<open>H\<close> is the identity, which is its own inverse and so has full rank.  The residual
  covariance \<open>S = [[1, 0], [0, 0]]\<close> is singular: the factorisation stops at the zero
  pivot, the solve divides by it, \<^verbatim>\<open>EKFUpdate\<close> goes on (it never reads the status)
  and returns a covariance whose entries are NaN.  Its trace is NaN, and
  \<open>NaN \<le> 1\<close> is false.
\<close>

theorem update_trace_singular_counterexample:
  "positive_semidefinite (Cov (scalar_state (mat_of_rows [[1, 0], [0, 0]]))) \<and>
   positive_semidefinite (mat_of_rows [[0, 0], [0, 0]]) \<and>
   mat_eq (mult (mat_of_rows [[1, 0], [0, 1]]) (mat_of_rows [[1, 0], [0, 1]]))
     (MatrixXd_Identity 2 2) \<and>
   \<not> isl (EKFUpdate double_extern
            (map_state Finite (scalar_state (mat_of_rows [[1, 0], [0, 0]]))) [0, 1]
            (map_mat Finite (mat_of_rows [[1, 0], [0, 1]]))
            (map_mat Finite (mat_of_rows [[0], [0]]))
            (map_mat Finite (mat_of_rows [[0, 0], [0, 0]]))) \<and>
   trace (Cov (map_state Finite (scalar_state (mat_of_rows [[1, 0], [0, 0]])))) = Finite 1 \<and>
   trace (Cov (projr (EKFUpdate double_extern
            (map_state Finite (scalar_state (mat_of_rows [[1, 0], [0, 0]]))) [0, 1]
            (map_mat Finite (mat_of_rows [[1, 0], [0, 1]]))
            (map_mat Finite (mat_of_rows [[0], [0]]))
            (map_mat Finite (mat_of_rows [[0, 0], [0, 0]]))))) = NaN \<and>
   \<not> trace (Cov (projr (EKFUpdate double_extern
            (map_state Finite (scalar_state (mat_of_rows [[1, 0], [0, 0]]))) [0, 1]
            (map_mat Finite (mat_of_rows [[1, 0], [0, 1]]))
            (map_mat Finite (mat_of_rows [[0], [0]]))
            (map_mat Finite (mat_of_rows [[0, 0], [0, 0]])))))
       \<le> trace (Cov (map_state Finite (scalar_state (mat_of_rows [[1, 0], [0, 0]]))))"
proof -
  define E where "E = EKFUpdate double_extern
            (map_state Finite (scalar_state (mat_of_rows [[1, 0], [0, 0]]))) [0, 1]
            (map_mat Finite (mat_of_rows [[1, 0], [0, 1]]))
            (map_mat Finite (mat_of_rows [[0], [0]]))
            (map_mat Finite (mat_of_rows [[0, 0], [0, 0]]))"
  have u: "ent (Cov (projr E)) 0 0 = NaN" "ent (Cov (projr E)) 1 1 = NaN"
    unfolding E_def by (rule singular_update_Cov, simp, simp)+
  have n: "nrows (Cov (projr E)) = 2"
    unfolding E_def by (rule singular_update_Cov_dims)
  have t1: "trace (Cov (projr E)) = NaN"
    by (simp add: trace_def u n eval_nat_numeral zero_double_def)
  have t0: "trace (Cov (map_state Finite (scalar_state (mat_of_rows [[1, 0], [0, 0]])))) = Finite 1"
    by (simp add: trace_def map_state_def map_mat_def scalar_state_def mat_of_rows_def
        eval_nat_numeral zero_double_def)
  have "positive_semidefinite (Cov (scalar_state (mat_of_rows [[1, 0], [0, 0]])))"
    using psd_diag_1_0 by (simp add: scalar_state_def)
  moreover have "mat_eq (mult (mat_of_rows [[1, 0], [0, 1]]) (mat_of_rows [[1, 0], [0, 1]]))
     (MatrixXd_Identity 2 2)"
    by (simp add: mat_eq_def mat_of_rows_def lessThan_Suc eval_nat_numeral less_Suc_eq)
  moreover have "\<not> isl E" unfolding E_def by (rule singular_update_not_isl)
  moreover have "\<not> trace (Cov (projr E))
       \<le> trace (Cov (map_state Finite (scalar_state (mat_of_rows [[1, 0], [0, 0]]))))"
    unfolding t1 t0 by simp
  ultimately show ?thesis
    using psd_zero_2 t0 t1 unfolding E_def by blast
qed


text \<open>
  Claim C4, amended, in exact arithmetic.  For a state with positive semidefinite
  covariance and an update whose noise \<open>R\<close> is positive semidefinite, whose Jacobian has
  one column per row of the listed attached variables, and for which the Cholesky solve
  returns the inverse of the residual covariance \<open>S = H P H\<^sup>T + R\<close> (as it does when
  \<open>S\<close> is positive definite), the trace of the updated covariance is at most the trace
  before; the covariance of the state that \<^verbatim>\<open>EKFUpdate\<close> returns is the updated one.
\<close>

theorem update_trace_monotone:
  assumes "positive_semidefinite (Cov s)" and "positive_semidefinite R"
    and "nrows res = nrows R" and "nrows H = nrows res" and "ncols H = cov_size s H_order"
    and "list_all (attached s) H_order"
    and "cholesky_exact ext (selfadjointView_Upper (residual_covariance s H_order H R))"
  shows "trace (updated_covariance ext s H_order H res R) \<le> trace (Cov s) \<and>
         (\<forall>s'. EKFUpdate ext s H_order H res R = Inr s' \<longrightarrow> trace (Cov s') \<le> trace (Cov s))"
proof -
  define n where "n = nrows R"
  define Sm where "Sm = selfadjointView_Upper (residual_covariance s H_order H R)"
  define X where "X = llt_solve ext Sm (MatrixXd_Identity n n)"
  define Xs where "Xs = selfadjointView_Upper X"
  define M where "M = compute_M_a s H_order H (nrows res)"
  have nS: "nrows Sm = n" "ncols Sm = n" by (simp_all add: Sm_def n_def)
  have Xd: "nrows X = n" "ncols X = n"
    and SX: "mat_eq (mult Sm X) (MatrixXd_Identity n n)"
    using assms(7) unfolding Sm_def [symmetric] cholesky_exact_def Let_def nS X_def [symmetric]
    by simp_all
  have SXe: "(\<Sum>k<n. ent Sm i k * ent X k j) = (if i = j then 1 else 0)" if "i < n" "j < n" for i j
  proof -
    from SX have "\<forall>a\<in>{..<n}. \<forall>b\<in>{..<n}. ent (mult Sm X) a b = ent (MatrixXd_Identity n n) a b"
      unfolding mat_eq_def by (simp only: dims_simps nS Xd simp_thms)
    with that have "ent (mult Sm X) i j = ent (MatrixXd_Identity n n) i j" by blast
    then show ?thesis by (simp add: nS)
  qed
  have Ssym: "ent Sm i j = ent Sm j i" for i j by (simp add: Sm_def)
  have psdS: "0 \<le> (\<Sum>k<n. \<Sum>l<n. w k * ent Sm k l * w l)" for w
    unfolding Sm_def n_def
    by (rule residual_covariance_psd [OF assms(1,2) _ assms(5,6)]) (simp add: assms(3,4))
  have Xsym: "ent X i j = ent X j i" if "i < n" "j < n" for i j
  proof (rule inverse_symmetric [where S = "ent Sm" and n = n])
    show "ent Sm a b = ent Sm b a" for a b by (rule Ssym)
    show "(\<Sum>k<n. ent Sm a k * ent X k b) = (if a = b then 1 else 0)" if "a < n" "b < n" for a b
      by (rule SXe [OF that])
  qed (rule that)+
  have Xse: "ent Xs i j = ent X i j" if "i < n" "j < n" for i j
    using Xsym [OF that] by (simp add: Xs_def)
  have psdX: "0 \<le> (\<Sum>k<n. \<Sum>j<n. v k * ent Xs k j * v j)" for v
  proof -
    have "0 \<le> (\<Sum>k<n. \<Sum>j<n. v k * ent X k j * v j)"
    proof (rule inverse_quadratic_nonneg [where S = "ent Sm"])
      show "0 \<le> (\<Sum>k<n. \<Sum>l<n. w k * ent Sm k l * w l)" for w by (rule psdS)
      show "(\<Sum>k<n. ent Sm a k * ent X k b) = (if a = b then 1 else 0)" if "a < n" "b < n" for a b
        by (rule SXe [OF that])
    qed
    moreover have "(\<Sum>k<n. \<Sum>j<n. v k * ent Xs k j * v j) = (\<Sum>k<n. \<Sum>j<n. v k * ent X k j * v j)"
      by (intro sum.cong refl) (simp add: Xse)
    ultimately show ?thesis by simp
  qed
  define KMt where "KMt = mult (mult M Xs) (transpose_mat M)"
  have diag: "0 \<le> ent KMt x x" for x
  proof -
    have "ncols M = n" "ncols Xs = n" by (simp_all add: M_def Xs_def Xd assms(3) n_def)
    then have "ent KMt x x = (\<Sum>j<n. (\<Sum>l<n. ent M x l * ent Xs l j) * ent M x j)"
      unfolding KMt_def by simp
    also have "\<dots> = (\<Sum>j<n. \<Sum>l<n. ent M x l * ent Xs l j * ent M x j)"
      by (simp add: sum_distrib_right)
    also have "\<dots> = (\<Sum>l<n. \<Sum>j<n. ent M x l * ent Xs l j * ent M x j)"
      by (rule sum.swap)
    finally show ?thesis using psdX [of "ent M x"] by simp
  qed
  have U: "updated_covariance ext s H_order H res R
             = selfadjointView_Upper (triangularView_Upper_sub (Cov s) KMt)"
    unfolding updated_covariance_def kalman_gain_def Let_def KMt_def M_def Xs_def X_def Sm_def n_def
    by (rule refl)
  have "trace (updated_covariance ext s H_order H res R) = (\<Sum>x<nrows (Cov s). ent (Cov s) x x - ent KMt x x)"
    by (simp add: U trace_def)
  also have "\<dots> \<le> (\<Sum>x<nrows (Cov s). ent (Cov s) x x)"
    by (rule sum_mono) (simp add: diag)
  finally have t: "trace (updated_covariance ext s H_order H res R) \<le> trace (Cov s)"
    by (simp add: trace_def)
  show ?thesis
  proof (intro conjI allI impI)
    show "trace (updated_covariance ext s H_order H res R) \<le> trace (Cov s)" by (rule t)
  next
    fix s' assume "EKFUpdate ext s H_order H res R = Inr s'"
    then have "Cov s' = updated_covariance ext s H_order H res R" by (rule EKFUpdate_Cov)
    then show "trace (Cov s') \<le> trace (Cov s)" using t by (simp only:)
  qed
qed

theorem update_trace_monotone_witness:
  "trace (updated_covariance example_extern (scalar_state (mat_of_rows [[4, 0], [0, 1]])) [0, 1]
            (mat_of_rows [[1, 0]]) (mat_of_rows [[2]]) (mat_of_rows [[1]]))
     \<le> trace (Cov (scalar_state (mat_of_rows [[4, 0], [0, 1]])))"
proof (rule update_trace_monotone [THEN conjunct1])
  show "positive_semidefinite (Cov (scalar_state (mat_of_rows [[4, 0], [0, 1]])))"
    using psd_diag_4_1 by (simp add: scalar_state_def)
  show "positive_semidefinite (mat_of_rows [[1]])" by (rule psd_1)
  show "cholesky_exact example_extern
     (selfadjointView_Upper
        (residual_covariance (scalar_state (mat_of_rows [[4, 0], [0, 1]])) [0, 1]
           (mat_of_rows [[1, 0]]) (mat_of_rows [[1]])))"
    by (rule cholesky_exact_example)
qed (simp_all add: scalar_defs)

end
